theory Spec2Isabelle
  imports Complex_Main
begin

section \<open>Python strings\<close>

text \<open>
  A Python \<open>str\<close> is a sequence of Unicode code points; the header pattern of the
  extractor names the en dash U+2013, which no 8-bit character holds. A string is
  therefore a list of code points, and \<open>ascii\<close> turns a literal into one.
\<close>

type_synonym str = "nat list"

definition ascii :: "string \<Rightarrow> str" where
  "ascii cs = map of_char cs"

definition en_dash :: nat where
  "en_dash = 8211"

text \<open>
  \<open>str.isspace\<close>, \<open>str.strip()\<close> and the pattern class \<open>\s\<close> share one table
  (\<open>Py_UNICODE_ISSPACE\<close>).
\<close>

definition uni_isspace :: "nat \<Rightarrow> bool" where
  "uni_isspace c \<longleftrightarrow>
     (9 \<le> c \<and> c \<le> 13) \<or> (28 \<le> c \<and> c \<le> 32) \<or> c = 133 \<or> c = 160 \<or> c = 5760 \<or>
     (8192 \<le> c \<and> c \<le> 8202) \<or> c = 8232 \<or> c = 8233 \<or> c = 8239 \<or> c = 8287 \<or> c = 12288"

text \<open>
  The pattern class \<open>\d\<close> of a \<open>str\<close> pattern and \<open>float\<close> share the table of
  decimal digits (general category Nd, \<open>Py_UNICODE_ISDECIMAL\<close>). The digits come in runs
  of ten, zero first; the list holds the code point of each zero (Unicode 14).
\<close>

definition decimal_zeros :: "nat list" where
  "decimal_zeros =
    [48, 1632, 1776, 1984, 2406, 2534, 2662, 2790, 2918, 3046, 3174, 3302, 3430, 3558,
     3664, 3792, 3872, 4160, 4240, 6112, 6160, 6470, 6608, 6784, 6800, 6992, 7088, 7232,
     7248, 42528, 43216, 43264, 43472, 43504, 43600, 44016, 65296, 66720, 68912, 69734,
     69872, 69942, 70096, 70384, 70736, 70864, 71248, 71360, 71472, 71904, 72016, 72784,
     73040, 73120, 92768, 92864, 93008, 120782, 120792, 120802, 120812, 120822, 123200,
     123632, 125264, 130032]"

fun to_decimal_in :: "nat list \<Rightarrow> nat \<Rightarrow> nat option" where
  "to_decimal_in [] c = None"
| "to_decimal_in (z # zs) c = (if z \<le> c \<and> c < z + 10 then Some (c - z) else to_decimal_in zs c)"

definition uni_todecimal :: "nat \<Rightarrow> nat option" where
  "uni_todecimal c = to_decimal_in decimal_zeros c"

definition uni_isdecimal :: "nat \<Rightarrow> bool" where
  "uni_isdecimal c \<longleftrightarrow> uni_todecimal c \<noteq> None"

text \<open>\<open>s.strip()\<close>: leading and trailing whitespace removed.\<close>

definition py_strip :: "str \<Rightarrow> str" where
  "py_strip s = rev (dropWhile uni_isspace (rev (dropWhile uni_isspace s)))"

text \<open>\<open>s.strip(chars)\<close>: leading and trailing characters of \<open>chars\<close> removed.\<close>

definition py_strip_chars :: "str \<Rightarrow> str \<Rightarrow> str" where
  "py_strip_chars chars s =
     rev (dropWhile (\<lambda>c. c \<in> set chars) (rev (dropWhile (\<lambda>c. c \<in> set chars) s)))"

text \<open>\<open>text.split('\n')\<close>: the pieces between newlines; never an empty list.\<close>

fun py_split :: "nat \<Rightarrow> str \<Rightarrow> str list" where
  "py_split sep [] = [[]]"
| "py_split sep (c # s) =
     (if c = sep then [] # py_split sep s
      else (case py_split sep s of [] \<Rightarrow> [[c]] | l # ls \<Rightarrow> (c # l) # ls))"

text \<open>\<open>sub in s\<close>: the substring test.\<close>

fun py_contains :: "str \<Rightarrow> str \<Rightarrow> bool" where
  "py_contains sub [] = (sub = [])"
| "py_contains sub (c # s) = (take (length sub) (c # s) = sub \<or> py_contains sub s)"

section \<open>The regular expressions of the extractor\<close>

text \<open>
  The fragment of \<open>re\<close> that the three patterns use: the anchor \<open>^\<close>, literal text, one
  character of a class, a class under \<open>*\<close>, \<open>+\<close> or \<open>{n}\<close>, a numbered group and
  concatenation. \<open>rmatch\<close> is the backtracking matcher: it returns every way to match
  at the current position, in the order the engine tries them (a greedy repetition
  offers its longest run first), so the head of the list is the match Python reports.
  A matcher state is the number of characters before the current position, the rest of
  the subject, and the groups captured so far.
\<close>

datatype regex =
    Bol
  | Lit str
  | Cls "nat \<Rightarrow> bool"
  | Star "nat \<Rightarrow> bool"
  | Plus "nat \<Rightarrow> bool"
  | Rep nat "nat \<Rightarrow> bool"
  | Grp nat regex
  | Seq regex regex

type_synonym groups = "nat \<Rightarrow> str option"
type_synonym mstate = "nat \<times> str \<times> groups"

fun greedy :: "(nat \<Rightarrow> bool) \<Rightarrow> groups \<Rightarrow> nat \<Rightarrow> str \<Rightarrow> mstate list" where
  "greedy P g k [] = [(k, [], g)]"
| "greedy P g k (c # s) =
     (if P c then greedy P g (Suc k) s @ [(k, c # s, g)] else [(k, c # s, g)])"

fun exactly :: "nat \<Rightarrow> (nat \<Rightarrow> bool) \<Rightarrow> groups \<Rightarrow> nat \<Rightarrow> str \<Rightarrow> mstate list" where
  "exactly 0 P g k s = [(k, s, g)]"
| "exactly (Suc n) P g k [] = []"
| "exactly (Suc n) P g k (c # s) = (if P c then exactly n P g (Suc k) s else [])"

fun rmatch :: "regex \<Rightarrow> mstate \<Rightarrow> mstate list" where
  "rmatch Bol (k, s, g) = (if k = 0 then [(k, s, g)] else [])"
| "rmatch (Lit w) (k, s, g) =
     (if take (length w) s = w then [(k + length w, drop (length w) s, g)] else [])"
| "rmatch (Cls P) (k, s, g) = exactly 1 P g k s"
| "rmatch (Star P) (k, s, g) = greedy P g k s"
| "rmatch (Plus P) (k, s, g) =
     (case s of [] \<Rightarrow> [] | c # s' \<Rightarrow> if P c then greedy P g (Suc k) s' else [])"
| "rmatch (Rep n P) (k, s, g) = exactly n P g k s"
| "rmatch (Grp i r) (k, s, g) =
     map (\<lambda>(k', s', g'). (k', s', g'(i \<mapsto> take (k' - k) s))) (rmatch r (k, s, g))"
| "rmatch (Seq r1 r2) st = concat (map (rmatch r2) (rmatch r1 st))"

text \<open>\<open>re.match\<close> tries position 0 only; the match object is modelled by its groups.\<close>

definition re_match :: "regex \<Rightarrow> str \<Rightarrow> groups option" where
  "re_match r s = (case rmatch r (0, s, Map.empty) of [] \<Rightarrow> None | (k, s', g) # _ \<Rightarrow> Some g)"

text \<open>\<open>re.search\<close> tries every position from the left, the end of the subject included.\<close>

fun search_from :: "regex \<Rightarrow> nat \<Rightarrow> str \<Rightarrow> groups option" where
  "search_from r k [] =
     (case rmatch r (k, [], Map.empty) of [] \<Rightarrow> None | (k', s', g) # _ \<Rightarrow> Some g)"
| "search_from r k (c # s) =
     (case rmatch r (k, c # s, Map.empty) of
        [] \<Rightarrow> search_from r (Suc k) s
      | (k', s', g) # _ \<Rightarrow> Some g)"

definition re_search :: "regex \<Rightarrow> str \<Rightarrow> groups option" where
  "re_search r s = search_from r 0 s"

text \<open>\<open>re.sub\<close> of a one-character class: each character of the class is replaced.\<close>

definition re_sub_class :: "(nat \<Rightarrow> bool) \<Rightarrow> str \<Rightarrow> str \<Rightarrow> str" where
  "re_sub_class P repl s = concat (map (\<lambda>c. if P c then repl else [c]) s)"

subsection \<open>Character classes\<close>

definition cls_digit :: "nat \<Rightarrow> bool" where
  "cls_digit c \<longleftrightarrow> uni_isdecimal c"

definition cls_space :: "nat \<Rightarrow> bool" where
  "cls_space c \<longleftrightarrow> uni_isspace c"

text \<open>\<open>[\<dots>-]\<close> with the en dash in place of the dots: an en dash or a hyphen.\<close>

definition cls_dash :: "nat \<Rightarrow> bool" where
  "cls_dash c \<longleftrightarrow> c = en_dash \<or> c = 45"

text \<open>\<open>[A-Za-z]\<close>\<close>

definition cls_alpha :: "nat \<Rightarrow> bool" where
  "cls_alpha c \<longleftrightarrow> (65 \<le> c \<and> c \<le> 90) \<or> (97 \<le> c \<and> c \<le> 122)"

text \<open>\<open>[\d.]\<close>\<close>

definition cls_number :: "nat \<Rightarrow> bool" where
  "cls_number c \<longleftrightarrow> uni_isdecimal c \<or> c = 46"

text \<open>\<open>[^\d.-]\<close>\<close>

definition cls_not_numeric :: "nat \<Rightarrow> bool" where
  "cls_not_numeric c \<longleftrightarrow> \<not> (uni_isdecimal c \<or> c = 46 \<or> c = 45)"

subsection \<open>The three patterns\<close>

text \<open>\<^verbatim>\<open>^(\d+)\s*[\<dots>-]\s*([A-Za-z]+,\s*[A-Za-z]+)\<close>\<close>

definition header_re :: regex where
  "header_re =
     Seq Bol (Seq (Grp 1 (Plus cls_digit)) (Seq (Star cls_space) (Seq (Cls cls_dash)
       (Seq (Star cls_space)
         (Grp 2 (Seq (Plus cls_alpha) (Seq (Lit (ascii '','')) (Seq (Star cls_space)
           (Plus cls_alpha)))))))))"

text \<open>\<^verbatim>\<open>(Hourly-)\s+(\d{2}/\d{2}/\d{2})\s+([\d.]+)\s+([\d.]+)\s+([\d.]+)\<close>\<close>

definition earning_re :: regex where
  "earning_re =
     Seq (Grp 1 (Lit (ascii ''Hourly-''))) (Seq (Plus cls_space)
       (Seq (Grp 2 (Seq (Rep 2 cls_digit) (Seq (Lit (ascii ''/'')) (Seq (Rep 2 cls_digit)
              (Seq (Lit (ascii ''/'')) (Rep 2 cls_digit))))))
         (Seq (Plus cls_space) (Seq (Grp 3 (Plus cls_number)) (Seq (Plus cls_space)
           (Seq (Grp 4 (Plus cls_number)) (Seq (Plus cls_space)
             (Grp 5 (Plus cls_number)))))))))"

text \<open>\<^verbatim>\<open>Total Earnings:\s+([\d.]+)\s+([\d.]+)\<close>\<close>

definition total_re :: regex where
  "total_re =
     Seq (Lit (ascii ''Total Earnings:'')) (Seq (Plus cls_space)
       (Seq (Grp 1 (Plus cls_number)) (Seq (Plus cls_space) (Grp 2 (Plus cls_number)))))"

section \<open>Floating-point numbers\<close>

text \<open>
  A Python \<open>float\<close> is an IEEE 754 double. The only floats of the extractor come from
  \<open>float\<close> of a string of digits, so a float is modelled by its sign and its exact
  value, a rational (or an infinity, which \<open>float\<close> returns for a decimal too large;
  NaN cannot arise). \<open>Finite True 0\<close> is \<open>-0.0\<close>.
\<close>

datatype pyfloat = Finite bool rat | Infinite bool

datatype error = ValueError | AttributeError

fun bitlen :: "nat \<Rightarrow> nat" where
  "bitlen n = (if n = 0 then 0 else Suc (bitlen (n div 2)))"

declare bitlen.simps [simp del]

text \<open>\<open>floor_log2 a b\<close> is the integer \<open>e\<close> with \<open>2^e \<le> a / b < 2^(e+1)\<close>, for positive \<open>a\<close>, \<open>b\<close>.\<close>

definition floor_log2 :: "nat \<Rightarrow> nat \<Rightarrow> int" where
  "floor_log2 a b =
     (let d = int (bitlen a) - int (bitlen b)
      in if (if 0 \<le> d then 2 ^ nat d * b \<le> a else b \<le> a * 2 ^ nat (- d)) then d else d - 1)"

text \<open>The integer nearest to \<open>a / b\<close>, a tie going to the even one.\<close>

definition round_half_even :: "nat \<Rightarrow> nat \<Rightarrow> nat" where
  "round_half_even a b =
     (let q = a div b; r = a mod b
      in if 2 * r < b then q else if b < 2 * r then q + 1 else if even q then q else q + 1)"

text \<open>
  The double nearest to \<open>n / 10^k\<close> (round to nearest, ties to even): 53 bits of
  significand, the least exponent of a subnormal is \<open>-1074\<close>, and a result of
  \<open>2^1024\<close> or more is an infinity.
\<close>

definition round_double :: "bool \<Rightarrow> nat \<Rightarrow> nat \<Rightarrow> pyfloat" where
  "round_double neg n k =
     (if n = 0 then Finite neg 0
      else
        let b = 10 ^ k;
            p = max (floor_log2 n b - 52) (- 1074);
            m = (if 0 \<le> p then round_half_even n (b * 2 ^ nat p)
                 else round_half_even (n * 2 ^ nat (- p)) b)
        in if 0 \<le> p \<and> 2 ^ 1024 \<le> m * 2 ^ nat p then Infinite neg
           else if 0 \<le> p then Finite neg (of_nat (m * 2 ^ nat p))
           else Finite neg (of_nat m / of_nat (2 ^ nat (- p))))"

text \<open>The number a run of decimal digits denotes, most significant digit first.\<close>

fun digits_value :: "nat \<Rightarrow> str \<Rightarrow> nat" where
  "digits_value acc [] = acc"
| "digits_value acc (c # s) =
     digits_value (10 * acc + (case uni_todecimal c of None \<Rightarrow> 0 | Some d \<Rightarrow> d)) s"

text \<open>
  \<open>float(s)\<close> on the strings that reach it here, which hold only decimal digits, points
  and minus signs: an optional sign, then digits with at most one point and at least one
  digit; anything else raises ValueError. (Exponents, underscores, blanks and the words
  \<open>inf\<close> and \<open>nan\<close>, which \<open>float\<close> also reads, need characters that the cleaning has
  removed; the model rejects them.)
\<close>

definition float_finish :: "bool \<Rightarrow> str \<Rightarrow> str \<Rightarrow> error + pyfloat" where
  "float_finish neg ip fp =
     (if ip \<noteq> [] \<or> fp \<noteq> [] then Inr (round_double neg (digits_value 0 (ip @ fp)) (length fp))
      else Inl ValueError)"

definition float_fraction :: "bool \<Rightarrow> str \<Rightarrow> str \<Rightarrow> error + pyfloat" where
  "float_fraction neg ip rest =
     (case rest of
        [] \<Rightarrow> float_finish neg ip []
      | c # fp \<Rightarrow>
          if c = 46 \<and> list_all uni_isdecimal fp then float_finish neg ip fp else Inl ValueError)"

definition float_body :: "bool \<Rightarrow> str \<Rightarrow> error + pyfloat" where
  "float_body neg body =
     float_fraction neg (takeWhile uni_isdecimal body) (dropWhile uni_isdecimal body)"

definition py_float :: "str \<Rightarrow> error + pyfloat" where
  "py_float s =
     (case s of
        [] \<Rightarrow> float_body False []
      | c # r \<Rightarrow> if c = 45 then float_body True r else float_body False s)"

section \<open>The extractor\<close>

subsection \<open>clean_currency\<close>

text \<open>
  \<^verbatim>\<open>if not value or value.strip() == '': return None\<close>, then inside \<open>try\<close> the
  substitution and \<open>float\<close>, and \<open>except (ValueError, AttributeError): return None\<close>.
  The argument is a string or \<open>None\<close>.
\<close>

definition clean_currency :: "str option \<Rightarrow> error + pyfloat option" where
  "clean_currency value =
     (case value of
        None \<Rightarrow> Inr None
      | Some v \<Rightarrow>
          if v = [] \<or> py_strip v = [] then Inr None
          else
            (case (let cleaned = re_sub_class cls_not_numeric [] v
                   in if cleaned \<noteq> [] then map_sum id Some (py_float cleaned) else Inr None) of
               Inl ValueError \<Rightarrow> Inr None
             | Inl AttributeError \<Rightarrow> Inr None
             | Inr r \<Rightarrow> Inr r))"

subsection \<open>The output structure\<close>

text \<open>
  An earnings entry and an employee are dictionaries with fixed keys, modelled as records.
  The keys \<open>total_hours\<close> and \<open>total_amount\<close> are not set when the employee dictionary is
  created: the outer \<open>None\<close> of these two fields means that the key is absent, \<open>Some None\<close>
  that it holds Python's \<open>None\<close>.
\<close>

record earning =
  type :: str
  date :: str
  rate :: "pyfloat option"
  hours :: "pyfloat option"
  amount :: "pyfloat option"

record employee =
  employee_id :: str
  employee_name :: str
  earnings :: "earning list"
  total_hours :: "pyfloat option option"
  total_amount :: "pyfloat option option"

record data_dict =
  employees :: "employee list"

record DataExtractor =
  pdf_path :: str
  data :: data_dict

text \<open>\<open>__init__\<close>\<close>

definition init :: "str \<Rightarrow> DataExtractor" where
  "init path = \<lparr>pdf_path = path, data = \<lparr>employees = []\<rparr>\<rparr>"

subsection \<open>parse_text_data\<close>

definition bind_err :: "error + 'a \<Rightarrow> ('a \<Rightarrow> error + 'b) \<Rightarrow> error + 'b" where
  "bind_err m f = (case m of Inl e \<Rightarrow> Inl e | Inr x \<Rightarrow> f x)"

text \<open>
  \<open>current_employee\<close> is a reference to a dictionary that is also an element of
  \<open>self.data['employees']\<close>: the list is the store and the reference is an index into it.
  \<open>update_at\<close> is a mutation through the reference.
\<close>

type_synonym loop_state = "employee list \<times> nat option"

definition update_at :: "nat \<Rightarrow> (employee \<Rightarrow> employee) \<Rightarrow> employee list \<Rightarrow> employee list" where
  "update_at i f emps = (if i < length emps then emps[i := f (emps ! i)] else emps)"

text \<open>
  The header block. \<open>group(2).strip()\<close> raises AttributeError when the group is
  \<open>None\<close>; a \<open>None\<close> from \<open>group(1)\<close> would be stored as it is, which the string field
  cannot hold, and the model fails there too (both groups always take part in a match,
  so neither happens).
\<close>

definition header_step :: "str \<Rightarrow> loop_state \<Rightarrow> error + loop_state" where
  "header_step line st =
     (case re_match header_re line of
        None \<Rightarrow> Inr st
      | Some employee_match \<Rightarrow>
          (case (employee_match 1, employee_match 2) of
             (Some emp_id, Some g2) \<Rightarrow>
               Inr (fst st @ [\<lparr>employee_id = emp_id, employee_name = py_strip g2, earnings = [],
                                total_hours = None, total_amount = None\<rparr>],
                    Some (length (fst st)))
           | _ \<Rightarrow> Inl AttributeError))"

text \<open>
  The earnings block; the flag of the result says whether \<open>continue\<close> was reached.
\<close>

definition earning_step :: "str \<Rightarrow> loop_state \<Rightarrow> error + (loop_state \<times> bool)" where
  "earning_step line st =
     (case snd st of
        None \<Rightarrow> Inr (st, False)
      | Some i \<Rightarrow>
          (case re_search earning_re line of
             None \<Rightarrow> Inr (st, False)
           | Some earning_match \<Rightarrow>
               (case (earning_match 1, earning_match 2) of
                  (Some g1, Some g2) \<Rightarrow>
                    bind_err (clean_currency (earning_match 3)) (\<lambda>r.
                    bind_err (clean_currency (earning_match 4)) (\<lambda>h.
                    bind_err (clean_currency (earning_match 5)) (\<lambda>a.
                      Inr ((update_at i (\<lambda>e. e\<lparr>earnings := earnings e @
                              [\<lparr>type = py_strip (py_strip_chars (ascii ''-'') g1), date = g2,
                                rate = r, hours = h, amount = a\<rparr>]\<rparr>) (fst st), snd st),
                           True))))
                | _ \<Rightarrow> Inl AttributeError)))"

text \<open>The total block.\<close>

definition total_step :: "str \<Rightarrow> loop_state \<Rightarrow> error + loop_state" where
  "total_step line st =
     (case snd st of
        None \<Rightarrow> Inr st
      | Some i \<Rightarrow>
          if py_contains (ascii ''Total Earnings:'') line then
            (case re_search total_re line of
               None \<Rightarrow> Inr st
             | Some total_match \<Rightarrow>
                 bind_err (clean_currency (total_match 1)) (\<lambda>th.
                 bind_err (clean_currency (total_match 2)) (\<lambda>ta.
                   Inr (update_at i (\<lambda>e. e\<lparr>total_hours := Some th, total_amount := Some ta\<rparr>)
                          (fst st), snd st))))
          else Inr st)"

text \<open>One turn of the loop over the lines.\<close>

definition loop_body :: "str \<Rightarrow> loop_state \<Rightarrow> error + loop_state" where
  "loop_body raw st =
     bind_err (header_step (py_strip raw) st) (\<lambda>st1.
     bind_err (earning_step (py_strip raw) st1) (\<lambda>(st2, continue).
       if continue then Inr st2 else total_step (py_strip raw) st2))"

fun parse_lines :: "str list \<Rightarrow> loop_state \<Rightarrow> error + loop_state" where
  "parse_lines [] st = Inr st"
| "parse_lines (l # ls) st = bind_err (loop_body l st) (parse_lines ls)"

text \<open>
  \<open>parse_text_data\<close> splits the text at newlines and starts the loop with
  \<open>current_employee = None\<close>, a local variable.
\<close>

definition parse_text_data :: "DataExtractor \<Rightarrow> str \<Rightarrow> error + DataExtractor" where
  "parse_text_data self text =
     bind_err (parse_lines (py_split 10 text) (employees (data self), None)) (\<lambda>(emps, cur).
       Inr (self\<lparr>data := \<lparr>employees = emps\<rparr>\<rparr>))"

subsection \<open>extract\<close>

text \<open>
  The PDF library is outside the program: its pages are given by what \<open>extract_text\<close>
  returns for each, a string or \<open>None\<close>. \<open>if text:\<close> skips \<open>None\<close> and the empty string.
  The result is the extractor after the calls and \<open>self.data\<close>. (The method
  \<open>extract\<close> is called \<open>extract_pdf\<close> here, \<open>extract\<close> being a command of Isabelle.)
\<close>

fun extract_pages :: "str option list \<Rightarrow> DataExtractor \<Rightarrow> error + DataExtractor" where
  "extract_pages [] self = Inr self"
| "extract_pages (None # pages) self = extract_pages pages self"
| "extract_pages (Some text # pages) self =
     (if text \<noteq> [] then bind_err (parse_text_data self text) (extract_pages pages)
      else extract_pages pages self)"

definition extract_pdf :: "DataExtractor \<Rightarrow> str option list \<Rightarrow> error + (DataExtractor \<times> data_dict)" where
  "extract_pdf self pages = bind_err (extract_pages pages self) (\<lambda>self'. Inr (self', data self'))"

subsection \<open>to_json\<close>

text \<open>
  \<open>json.dumps\<close> belongs to the standard library; \<open>to_json\<close> is modelled up to the JSON
  value that the returned text denotes: an object has the keys of its dictionary, in
  insertion order, and \<open>None\<close> is \<open>null\<close>.
\<close>

datatype json = JNull | JNumber pyfloat | JString str | JArray "json list" | JObject "(str \<times> json) list"

definition float_json :: "pyfloat option \<Rightarrow> json" where
  "float_json v = (case v of None \<Rightarrow> JNull | Some x \<Rightarrow> JNumber x)"

definition earning_json :: "earning \<Rightarrow> json" where
  "earning_json e =
     JObject [(ascii ''type'', JString (type e)), (ascii ''date'', JString (date e)),
              (ascii ''rate'', float_json (rate e)), (ascii ''hours'', float_json (hours e)),
              (ascii ''amount'', float_json (amount e))]"

definition employee_json :: "employee \<Rightarrow> json" where
  "employee_json e =
     JObject ([(ascii ''employee_id'', JString (employee_id e)),
               (ascii ''employee_name'', JString (employee_name e)),
               (ascii ''earnings'', JArray (map earning_json (earnings e)))]
              @ (case total_hours e of None \<Rightarrow> [] | Some v \<Rightarrow> [(ascii ''total_hours'', float_json v)])
              @ (case total_amount e of None \<Rightarrow> [] | Some v \<Rightarrow> [(ascii ''total_amount'', float_json v)]))"

definition to_json :: "DataExtractor \<Rightarrow> json" where
  "to_json self = JObject [(ascii ''employees'', JArray (map employee_json (employees (data self))))]"

text \<open>The value of a key of a JSON object, if the object has the key.\<close>

definition json_field :: "str \<Rightarrow> json \<Rightarrow> json option" where
  "json_field key j = (case j of JObject kvs \<Rightarrow> map_of kvs key | _ \<Rightarrow> None)"

section \<open>What a line contributes\<close>

text \<open>
  The notions the properties are stated with. \<open>clean_value\<close> is the value
  \<open>clean_currency\<close> returns; \<open>header_of\<close>, \<open>entry_of\<close> and \<open>totals_of\<close> read a raw
  line (stripped first, as the loop does) with the header pattern, the earnings pattern
  and the total block.
\<close>

definition clean_value :: "str option \<Rightarrow> pyfloat option" where
  "clean_value v = (case clean_currency v of Inl e \<Rightarrow> None | Inr r \<Rightarrow> r)"

definition header_of :: "str \<Rightarrow> (str \<times> str) option" where
  "header_of raw =
     (case re_match header_re (py_strip raw) of
        None \<Rightarrow> None
      | Some m \<Rightarrow> (case (m 1, m 2) of (Some a, Some b) \<Rightarrow> Some (a, py_strip b) | _ \<Rightarrow> None))"

definition entry_of :: "str \<Rightarrow> earning option" where
  "entry_of raw =
     (case re_search earning_re (py_strip raw) of
        None \<Rightarrow> None
      | Some m \<Rightarrow>
          (case (m 1, m 2) of
             (Some g1, Some g2) \<Rightarrow>
               Some \<lparr>type = py_strip (py_strip_chars (ascii ''-'') g1), date = g2,
                     rate = clean_value (m 3), hours = clean_value (m 4),
                     amount = clean_value (m 5)\<rparr>
           | _ \<Rightarrow> None))"

definition totals_of :: "str \<Rightarrow> (pyfloat option \<times> pyfloat option) option" where
  "totals_of raw =
     (if py_contains (ascii ''Total Earnings:'') (py_strip raw) then
        (case re_search total_re (py_strip raw) of
           None \<Rightarrow> None
         | Some m \<Rightarrow> Some (clean_value (m 1), clean_value (m 2)))
      else None)"

definition new_employee :: "str \<times> str \<Rightarrow> employee" where
  "new_employee h =
     \<lparr>employee_id = fst h, employee_name = snd h, earnings = [], total_hours = None,
      total_amount = None\<rparr>"

definition add_earning :: "earning \<Rightarrow> employee \<Rightarrow> employee" where
  "add_earning x e = e\<lparr>earnings := earnings e @ [x]\<rparr>"

definition set_totals :: "pyfloat option \<times> pyfloat option \<Rightarrow> employee \<Rightarrow> employee" where
  "set_totals t e = e\<lparr>total_hours := Some (fst t), total_amount := Some (snd t)\<rparr>"

text \<open>
  What a line does to the record that is current once the header block is over: an
  earnings row is appended and the total block is skipped; otherwise the total block
  may set the totals.
\<close>

definition apply_line :: "str \<Rightarrow> employee \<Rightarrow> employee" where
  "apply_line raw e =
     (case entry_of raw of
        Some x \<Rightarrow> add_earning x e
      | None \<Rightarrow> (case totals_of raw of Some t \<Rightarrow> set_totals t e | None \<Rightarrow> e))"

text \<open>One turn of the loop as a function on the loop state, without the error cases.\<close>

definition step :: "str \<Rightarrow> loop_state \<Rightarrow> loop_state" where
  "step raw st =
     (let st1 = (case header_of raw of
                   None \<Rightarrow> st
                 | Some h \<Rightarrow> (fst st @ [new_employee h], Some (length (fst st))))
      in case snd st1 of
           None \<Rightarrow> st1
         | Some i \<Rightarrow> (update_at i (apply_line raw) (fst st1), snd st1))"

text \<open>
  The loop state of \<open>parse_text_data\<close> refers to the last employee of the list or to
  none.
\<close>

definition current_is_last :: "loop_state \<Rightarrow> bool" where
  "current_is_last st = (case snd st of None \<Rightarrow> True | Some i \<Rightarrow> Suc i = length (fst st))"

subsection \<open>The records of a line sequence, as the specification describes them\<close>

text \<open>
  Each header line opens one record; the record owns the lines from its header line up
  to the next header line, and the lines before the first header line belong to no
  record. \<open>fill\<close> applies the lines a record owns to it, in order.
\<close>

fun fill :: "employee \<Rightarrow> str list \<Rightarrow> employee" where
  "fill e [] = e"
| "fill e (l # ls) = fill (apply_line l e) ls"

fun spec_records :: "str list \<Rightarrow> employee list" where
  "spec_records [] = []"
| "spec_records (l # ls) =
     (case header_of l of
        None \<Rightarrow> spec_records ls
      | Some h \<Rightarrow>
          fill (new_employee h) (l # takeWhile (\<lambda>x. header_of x = None) ls) # spec_records ls)"

text \<open>
  The records one page contributes: none when \<open>extract_text\<close> gave \<open>None\<close> or the
  empty string, else the records of the lines of the page.
\<close>

definition page_records :: "str option \<Rightarrow> employee list" where
  "page_records page =
     (case page of
        None \<Rightarrow> []
      | Some text \<Rightarrow> if text = [] then [] else spec_records (py_split 10 text))"

text \<open>
  The same for the entries alone: identifier, name and the earnings rows of the owned
  lines, in the order of the lines.
\<close>

fun owned_entries :: "str list \<Rightarrow> (str \<times> str \<times> earning list) list" where
  "owned_entries [] = []"
| "owned_entries (l # ls) =
     (case header_of l of
        None \<Rightarrow> owned_entries ls
      | Some h \<Rightarrow>
          (fst h, snd h, List.map_filter entry_of (l # takeWhile (\<lambda>x. header_of x = None) ls))
          # owned_entries ls)"

subsection \<open>The totals of a record, as the specification describes them\<close>

text \<open>
  \<open>total_tokens\<close>: the two tokens of a line that reaches the total block with a match
  (the line holds no earnings row, contains the marker, and the total pattern matches).
  \<open>last_total_tokens\<close>: those of the last such line among the lines a record owns.
  \<open>owned_lines\<close>: the lines each record owns, from its header line up to the next.
  \<open>token_json\<close>: what the output holds for a token, a number when \<open>clean_currency\<close>
  reads one in it and null when it returns \<open>None\<close>. \<open>json_employees\<close>: the objects
  of the array under the key \<open>employees\<close> of the output.
\<close>

definition total_tokens :: "str \<Rightarrow> (str option \<times> str option) option" where
  "total_tokens raw =
     (if entry_of raw \<noteq> None then None
      else if py_contains (ascii ''Total Earnings:'') (py_strip raw) then
        (case re_search total_re (py_strip raw) of None \<Rightarrow> None | Some m \<Rightarrow> Some (m 1, m 2))
      else None)"

fun last_total_tokens :: "str list \<Rightarrow> (str option \<times> str option) option" where
  "last_total_tokens [] = None"
| "last_total_tokens (l # ls) =
     (case last_total_tokens ls of None \<Rightarrow> total_tokens l | Some t \<Rightarrow> Some t)"

fun owned_lines :: "str list \<Rightarrow> str list list" where
  "owned_lines [] = []"
| "owned_lines (l # ls) =
     (case header_of l of
        None \<Rightarrow> owned_lines ls
      | Some h \<Rightarrow> (l # takeWhile (\<lambda>x. header_of x = None) ls) # owned_lines ls)"

definition token_json :: "str option \<Rightarrow> json" where
  "token_json g = (case clean_currency g of Inr (Some x) \<Rightarrow> JNumber x | _ \<Rightarrow> JNull)"

definition json_employees :: "json \<Rightarrow> json list" where
  "json_employees j =
     (case json_field (ascii ''employees'') j of Some (JArray objs) \<Rightarrow> objs | _ \<Rightarrow> [])"

definition line_total_bad :: str where
  "line_total_bad = ascii ''Total Earnings: 1.2.3 50.00''"

subsection \<open>What the patterns accept\<close>

text \<open>
  \<open>lang r k w\<close>: the pattern \<open>r\<close> can match the text \<open>w\<close> at position \<open>k\<close> of a subject.
\<close>

fun lang :: "regex \<Rightarrow> nat \<Rightarrow> str \<Rightarrow> bool" where
  "lang Bol k w = (w = [] \<and> k = 0)"
| "lang (Lit u) k w = (w = u)"
| "lang (Cls P) k w = (length w = 1 \<and> list_all P w)"
| "lang (Star P) k w = list_all P w"
| "lang (Plus P) k w = (w \<noteq> [] \<and> list_all P w)"
| "lang (Rep n P) k w = (length w = n \<and> list_all P w)"
| "lang (Grp i r) k w = lang r k w"
| "lang (Seq r1 r2) k w = (\<exists>u v. w = u @ v \<and> lang r1 k u \<and> lang r2 (k + length u) v)"

fun groups_of :: "regex \<Rightarrow> nat set" where
  "groups_of (Grp i r) = insert i (groups_of r)"
| "groups_of (Seq r1 r2) = groups_of r1 \<union> groups_of r2"
| "groups_of r = {}"

text \<open>The match the engine reports at the current position: the first it finds.\<close>

definition first_match :: "regex \<Rightarrow> mstate \<Rightarrow> mstate option" where
  "first_match r st = (case rmatch r st of [] \<Rightarrow> None | x # _ \<Rightarrow> Some x)"

subsection \<open>The shape of an earnings row\<close>

text \<open>
  The shape the earnings pattern describes, in words of the specification: the literal
  \<open>Hourly-\<close>, blanks, a date of three pairs of digits between slashes, and three number
  tokens (digits and points) after blanks each. \<open>earning_row s d t1 t2 t3 rest\<close>: the
  text \<open>s\<close> begins with such a row, with date \<open>d\<close> and tokens \<open>t1\<close>, \<open>t2\<close>, \<open>t3\<close>,
  and \<open>rest\<close> follows the row.
\<close>

definition blank_run :: "str \<Rightarrow> bool" where
  "blank_run w \<longleftrightarrow> w \<noteq> [] \<and> list_all uni_isspace w"

definition number_token :: "str \<Rightarrow> bool" where
  "number_token t \<longleftrightarrow> t \<noteq> [] \<and> list_all cls_number t"

definition date_token :: "str \<Rightarrow> bool" where
  "date_token d \<longleftrightarrow>
     (\<exists>d1 d2 d3. d = d1 @ [47] @ d2 @ [47] @ d3 \<and>
        length d1 = 2 \<and> length d2 = 2 \<and> length d3 = 2 \<and>
        list_all uni_isdecimal d1 \<and> list_all uni_isdecimal d2 \<and> list_all uni_isdecimal d3)"

definition earning_row :: "str \<Rightarrow> str \<Rightarrow> str \<Rightarrow> str \<Rightarrow> str \<Rightarrow> str \<Rightarrow> bool" where
  "earning_row s d t1 t2 t3 rest \<longleftrightarrow>
     (\<exists>w1 w2 w3 w4.
        s = ascii ''Hourly-'' @ w1 @ d @ w2 @ t1 @ w3 @ t2 @ w4 @ t3 @ rest \<and>
        blank_run w1 \<and> date_token d \<and> blank_run w2 \<and> number_token t1 \<and>
        blank_run w3 \<and> number_token t2 \<and> blank_run w4 \<and> number_token t3)"

definition begins_row :: "str \<Rightarrow> bool" where
  "begins_row s \<longleftrightarrow> (\<exists>d t1 t2 t3 rest. earning_row s d t1 t2 t3 rest)"

text \<open>The loop over the lines as a function on the loop state.\<close>

fun run :: "str list \<Rightarrow> loop_state \<Rightarrow> loop_state" where
  "run [] st = st"
| "run (l # ls) st = run ls (step l st)"

subsection \<open>The lines of the scenarios\<close>

definition line_header :: str where
  "line_header = ascii ''1001 '' @ [en_dash] @ ascii '' Smith, John''"

definition line_hourly :: str where
  "line_hourly = ascii ''Hourly- 01/02/25 10.00 5.00 50.00''"

definition line_hourly2 :: str where
  "line_hourly2 = ascii ''Hourly- 01/03/25 10.00 4.00 40.00''"

definition line_total :: str where
  "line_total = ascii ''Total Earnings: 5.00 50.00''"

definition line_total2 :: str where
  "line_total2 = ascii ''Total Earnings: 9.00 90.00''"

definition line_total_one :: str where
  "line_total_one = ascii ''Total Earnings: 5.00''"

definition line_overtime :: str where
  "line_overtime = ascii ''Overtime- 01/02/25 10.00 5.00 50.00''"

definition line_both :: str where
  "line_both = ascii ''Total Earnings: 9.00 90.00 Hourly- 01/03/25 10.00 4.00 40.00''"

definition line_noise :: str where
  "line_noise = ascii ''Page 1 of 2''"

definition line_padded :: str where
  "line_padded = ascii ''Pay Hourly- 01/02/25 10.00 5.00 50.00 net''"

definition smith :: employee where
  "smith = \<lparr>employee_id = ascii ''1001'', employee_name = ascii ''Smith, John'', earnings = [],
            total_hours = None, total_amount = None\<rparr>"

definition hourly_entry :: earning where
  "hourly_entry = \<lparr>type = ascii ''Hourly'', date = ascii ''01/02/25'', rate = Some (Finite False 10),
                   hours = Some (Finite False 5), amount = Some (Finite False 50)\<rparr>"

definition hourly_entry2 :: earning where
  "hourly_entry2 = \<lparr>type = ascii ''Hourly'', date = ascii ''01/03/25'', rate = Some (Finite False 10),
                    hours = Some (Finite False 4), amount = Some (Finite False 40)\<rparr>"

section \<open>Properties\<close>

subsection \<open>Groups of a match\<close>

lemma greedy_groups: "(k', s', g') \<in> set (greedy P g k s) \<Longrightarrow> g' = g"
  by (induction s arbitrary: k) (auto split: if_splits)

lemma exactly_groups: "(k', s', g') \<in> set (exactly n P g k s) \<Longrightarrow> g' = g"
  by (induction n P g k s rule: exactly.induct) (auto split: if_splits)

lemma rmatch_groups:
  "(k', s', g') \<in> set (rmatch r (k, s, g)) \<Longrightarrow>
     (\<forall>i \<in> groups_of r. g' i \<noteq> None) \<and> (\<forall>i. g i \<noteq> None \<longrightarrow> g' i \<noteq> None)"
proof (induction r arbitrary: k s g k' s' g')
  case (Grp i r)
  then show ?case by (auto split: if_splits)
next
  case (Seq r1 r2)
  from Seq.prems obtain k1 s1 g1 where
    a: "(k1, s1, g1) \<in> set (rmatch r1 (k, s, g))" and b: "(k', s', g') \<in> set (rmatch r2 (k1, s1, g1))"
    by auto
  from Seq.IH(1)[OF a] Seq.IH(2)[OF b] show ?case by auto
qed (auto split: if_splits list.splits dest: greedy_groups exactly_groups)

lemma first_match_groups:
  assumes "first_match r (k, s, g) = Some (k', s', g')" and "i \<in> groups_of r"
  shows "g' i \<noteq> None"
proof -
  from assms(1) have "(k', s', g') \<in> set (rmatch r (k, s, g))"
    by (auto simp: first_match_def split: list.splits)
  from rmatch_groups[OF this] assms(2) show ?thesis by blast
qed

lemma re_match_first:
  "re_match r s = map_option (\<lambda>x. snd (snd x)) (first_match r (0, s, Map.empty))"
  by (simp add: re_match_def first_match_def split: list.splits)

lemma re_match_groups:
  assumes "re_match r s = Some m" and "i \<in> groups_of r"
  shows "m i \<noteq> None"
proof -
  from assms(1) obtain k' s' where "first_match r (0, s, Map.empty) = Some (k', s', m)"
    by (auto simp: re_match_first)
  from first_match_groups[OF this assms(2)] show ?thesis .
qed

lemma search_from_first:
  "search_from r k s = Some m \<Longrightarrow>
     \<exists>j \<le> length s. \<exists>k' s'. first_match r (k + j, drop j s, Map.empty) = Some (k', s', m)"
proof (induction s arbitrary: k)
  case Nil
  then show ?case by (auto simp: first_match_def split: list.splits)
next
  case (Cons c s)
  show ?case
  proof (cases "rmatch r (k, c # s, Map.empty)")
    case Nil
    with Cons.prems have "search_from r (Suc k) s = Some m" by simp
    from Cons.IH[OF this] obtain j k' s' where
      "j \<le> length s" "first_match r (Suc k + j, drop j s, Map.empty) = Some (k', s', m)" by blast
    then have "Suc j \<le> length (c # s) \<and> first_match r (k + Suc j, drop (Suc j) (c # s), Map.empty) = Some (k', s', m)"
      by simp
    then show ?thesis by blast
  next
    case (Cons x xs)
    with Cons.prems have "first_match r (k + 0, drop 0 (c # s), Map.empty) = Some (fst x, fst (snd x), m)"
      by (cases x) (auto simp: first_match_def)
    then show ?thesis by blast
  qed
qed

lemma re_search_groups:
  assumes "re_search r s = Some m" and "i \<in> groups_of r"
  shows "m i \<noteq> None"
proof -
  from search_from_first[OF assms(1)[unfolded re_search_def]] obtain j k' s' where
    "first_match r (0 + j, drop j s, Map.empty) = Some (k', s', m)" by blast
  from first_match_groups[OF this assms(2)] show ?thesis .
qed

lemma clean_currency_Inr: "clean_currency v = Inr (clean_value v)"
  by (auto simp: clean_value_def clean_currency_def Let_def split: option.splits sum.splits error.splits)

lemma header_groups: "re_match header_re s = Some m \<Longrightarrow> \<exists>a b. m 1 = Some a \<and> m 2 = Some b"
  using re_match_groups[of header_re s m 1] re_match_groups[of header_re s m 2]
  by (auto simp: header_re_def)

lemma earning_groups: "re_search earning_re s = Some m \<Longrightarrow> \<exists>a b. m 1 = Some a \<and> m 2 = Some b"
  using re_search_groups[of earning_re s m 1] re_search_groups[of earning_re s m 2]
  by (auto simp: earning_re_def)

lemma header_step_eq:
  "header_step (py_strip raw) st =
     Inr (case header_of raw of None \<Rightarrow> st
          | Some h \<Rightarrow> (fst st @ [new_employee h], Some (length (fst st))))"
  by (auto simp: header_step_def header_of_def new_employee_def split: option.splits dest: header_groups)

lemma add_earning_fold: "(\<lambda>e. e\<lparr>earnings := earnings e @ [x]\<rparr>) = add_earning x"
  by (simp add: fun_eq_iff add_earning_def)

lemma set_totals_fold:
  "(\<lambda>e. e\<lparr>total_hours := Some a, total_amount := Some b\<rparr>) = set_totals (a, b)"
  by (simp add: fun_eq_iff set_totals_def)

lemma earning_step_eq:
  "earning_step (py_strip raw) st =
     Inr (case snd st of None \<Rightarrow> (st, False)
          | Some i \<Rightarrow> (case entry_of raw of None \<Rightarrow> (st, False)
                       | Some x \<Rightarrow> ((update_at i (add_earning x) (fst st), snd st), True)))"
  by (auto simp: earning_step_def entry_of_def clean_currency_Inr bind_err_def add_earning_fold
      split: option.splits dest: earning_groups)

lemma total_step_eq:
  "total_step (py_strip raw) st =
     Inr (case snd st of None \<Rightarrow> st
          | Some i \<Rightarrow> (case totals_of raw of None \<Rightarrow> st
                       | Some t \<Rightarrow> (update_at i (set_totals t) (fst st), snd st)))"
  by (auto simp: total_step_def totals_of_def clean_currency_Inr bind_err_def set_totals_fold
      split: option.splits)

lemma apply_line_entry: "entry_of raw = Some x \<Longrightarrow> apply_line raw = add_earning x"
  by (simp add: fun_eq_iff apply_line_def)

lemma apply_line_totals:
  "entry_of raw = None \<Longrightarrow> totals_of raw = Some t \<Longrightarrow> apply_line raw = set_totals t"
  by (simp add: fun_eq_iff apply_line_def)

lemma apply_line_none:
  "entry_of raw = None \<Longrightarrow> totals_of raw = None \<Longrightarrow> apply_line raw = (\<lambda>e. e)"
  by (simp add: fun_eq_iff apply_line_def)

lemma update_at_ident: "update_at i (\<lambda>e. e) emps = emps"
  by (simp add: update_at_def)

lemma loop_body_step: "loop_body raw st = Inr (step raw st)"
proof -
  define st1 where "st1 = (case header_of raw of None \<Rightarrow> st
     | Some h \<Rightarrow> (fst st @ [new_employee h], Some (length (fst st))))"
  have a: "loop_body raw st =
     bind_err (earning_step (py_strip raw) st1) (\<lambda>(st2, continue).
       if continue then Inr st2 else total_step (py_strip raw) st2)"
    by (simp add: loop_body_def header_step_eq bind_err_def st1_def)
  have b: "step raw st = (case snd st1 of None \<Rightarrow> st1
         | Some i \<Rightarrow> (update_at i (apply_line raw) (fst st1), snd st1))"
    unfolding step_def Let_def st1_def by (rule refl)
  show ?thesis
  proof (cases "snd st1")
    case None
    then show ?thesis
      by (simp add: a b earning_step_eq total_step_eq bind_err_def)
  next
    case (Some i)
    show ?thesis
    proof (cases "entry_of raw")
      case (Some x)
      with \<open>snd st1 = Some i\<close> show ?thesis
        by (simp add: a b earning_step_eq bind_err_def apply_line_entry)
    next
      case None
      with \<open>snd st1 = Some i\<close> show ?thesis
        by (cases "totals_of raw"; cases st1)
          (simp_all add: a b earning_step_eq total_step_eq bind_err_def apply_line_totals
            apply_line_none update_at_ident)
    qed
  qed
qed

lemma parse_lines_run: "parse_lines ls st = Inr (run ls st)"
  by (induction ls arbitrary: st) (simp_all add: loop_body_step bind_err_def)

subsection \<open>The loop and the records of the specification\<close>

lemma update_at_last: "update_at (length emps) f (emps @ [e]) = emps @ [f e]"
  by (simp add: update_at_def)

lemma step_no_current:
  "step l (emps, None) =
     (case header_of l of None \<Rightarrow> (emps, None)
      | Some h \<Rightarrow> (emps @ [apply_line l (new_employee h)], Some (length emps)))"
  by (simp add: step_def update_at_last split: option.splits)

lemma step_current:
  "step l (emps @ [e], Some (length emps)) =
     (case header_of l of None \<Rightarrow> (emps @ [apply_line l e], Some (length emps))
      | Some h \<Rightarrow> ((emps @ [e]) @ [apply_line l (new_employee h)], Some (length (emps @ [e]))))"
  by (simp add: step_def update_at_last update_at_last[of "emps @ [e]", simplified]
      split: option.splits)

lemma spec_records_dropWhile:
  "spec_records (dropWhile (\<lambda>x. header_of x = None) ls) = spec_records ls"
  by (induction ls) simp_all

lemma run_records:
  "fst (run ls (emps, None)) = emps @ spec_records ls"
  "fst (run ls (emps @ [e], Some (length emps))) =
     emps @ fill e (takeWhile (\<lambda>x. header_of x = None) ls)
          # spec_records (dropWhile (\<lambda>x. header_of x = None) ls)"
proof (induction ls arbitrary: emps e)
  case Nil
  { case 1 show ?case by simp }
  { case 2 show ?case by simp }
next
  case (Cons l ls)
  { case 1
    show ?case
    proof (cases "header_of l")
      case None
      then show ?thesis by (simp add: step_no_current Cons.IH(1))
    next
      case (Some h)
      then show ?thesis
        by (simp add: step_no_current Cons.IH(2) spec_records_dropWhile)
    qed }
  { case 2
    show ?case
    proof (cases "header_of l")
      case None
      then show ?thesis by (simp add: step_current Cons.IH(2))
    next
      case (Some h)
      have "fst (run ls ((emps @ [e]) @ [apply_line l (new_employee h)], Some (length (emps @ [e])))) =
          (emps @ [e]) @ fill (apply_line l (new_employee h)) (takeWhile (\<lambda>x. header_of x = None) ls)
             # spec_records (dropWhile (\<lambda>x. header_of x = None) ls)"
        by (rule Cons.IH(2))
      with Some show ?thesis
        by (simp add: step_current spec_records_dropWhile)
    qed }
qed

lemma parse_lines_records:
  "\<exists>cur. parse_lines ls (emps, None) = Inr (emps @ spec_records ls, cur)"
proof -
  have "parse_lines ls (emps, None) = Inr (run ls (emps, None))" by (rule parse_lines_run)
  moreover have "run ls (emps, None) = (emps @ spec_records ls, snd (run ls (emps, None)))"
    using run_records(1)[of ls emps] by (cases "run ls (emps, None)") simp
  ultimately show ?thesis by metis
qed

lemma parse_text_data_records:
  "parse_text_data self text =
     Inr (self\<lparr>data := \<lparr>employees = employees (data self) @ spec_records (py_split 10 text)\<rparr>\<rparr>)"
proof -
  obtain cur where "parse_lines (py_split 10 text) (employees (data self), None) =
      Inr (employees (data self) @ spec_records (py_split 10 text), cur)"
    using parse_lines_records by blast
  then show ?thesis by (simp add: parse_text_data_def bind_err_def)
qed

text \<open>The records a page contributes.\<close>

lemma earnings_fill: "earnings (fill e ls) = earnings e @ List.map_filter entry_of ls"
proof (induction ls arbitrary: e)
  case Nil
  show ?case by (simp add: List.map_filter_simps)
next
  case (Cons l ls)
  show ?case
    by (simp add: Cons.IH List.map_filter_simps apply_line_def add_earning_def set_totals_def
        split: option.splits)
qed

lemma fill_id_name:
  "employee_id (fill e ls) = employee_id e" "employee_name (fill e ls) = employee_name e"
  by (induction ls arbitrary: e)
    (simp_all add: apply_line_def add_earning_def set_totals_def split: option.splits)

lemma owned_entries_spec:
  "map (\<lambda>e. (employee_id e, employee_name e, earnings e)) (spec_records ls) = owned_entries ls"
  by (induction ls)
    (simp_all add: earnings_fill fill_id_name new_employee_def List.map_filter_simps apply_line_def
      add_earning_def set_totals_def split: option.splits)

subsection \<open>Evaluation on the lines of the scenarios\<close>

lemma isdecimal_low: "c < 1632 \<Longrightarrow> uni_isdecimal c = (48 \<le> c \<and> c < 58)"
  by (simp add: uni_isdecimal_def uni_todecimal_def decimal_zeros_def)

lemma todecimal_low:
  "c < 1632 \<Longrightarrow> uni_todecimal c = (if 48 \<le> c \<and> c < 58 then Some (c - 48) else None)"
  by (simp add: uni_isdecimal_def uni_todecimal_def decimal_zeros_def)

lemma exactly_numeral: "exactly (numeral v) P g k s = exactly (Suc (pred_numeral v)) P g k s"
  by (simp add: numeral_eq_Suc)

lemmas char_eval = ascii_def en_dash_def uni_isspace_def isdecimal_low todecimal_low
  cls_digit_def cls_space_def cls_dash_def cls_alpha_def cls_number_def cls_not_numeric_def

lemmas str_eval = char_eval py_strip_def py_strip_chars_def re_sub_class_def exactly_numeral

lemmas float_eval = py_float_def float_body_def float_fraction_def float_finish_def

lemmas round_eval = round_double_def floor_log2_def round_half_even_def Let_def

lemma round_1000: "round_double False 1000 (Suc (Suc 0)) = Finite False 10"
  unfolding round_eval by (simp add: bitlen.simps)

lemma round_500: "round_double False 500 (Suc (Suc 0)) = Finite False 5"
  unfolding round_eval by (simp add: bitlen.simps)

lemma round_5000: "round_double False 5000 (Suc (Suc 0)) = Finite False 50"
  unfolding round_eval by (simp add: bitlen.simps)

lemma clean_value_10: "clean_value (Some (ascii ''10.00'')) = Some (Finite False 10)"
  unfolding clean_value_def clean_currency_def float_eval Let_def
  by (simp add: str_eval round_1000)

lemma clean_value_5: "clean_value (Some (ascii ''5.00'')) = Some (Finite False 5)"
  unfolding clean_value_def clean_currency_def float_eval Let_def
  by (simp add: str_eval round_500)

lemma clean_value_50: "clean_value (Some (ascii ''50.00'')) = Some (Finite False 50)"
  unfolding clean_value_def clean_currency_def float_eval Let_def
  by (simp add: str_eval round_5000)

lemma header_of_header: "header_of line_header = Some (ascii ''1001'', ascii ''Smith, John'')"
  unfolding header_of_def re_match_def header_re_def line_header_def by (simp add: str_eval)

lemma header_of_hourly: "header_of line_hourly = None"
  unfolding header_of_def re_match_def header_re_def line_hourly_def by (simp add: str_eval)

lemma header_of_total: "header_of line_total = None"
  unfolding header_of_def re_match_def header_re_def line_total_def by (simp add: str_eval)

lemma entry_of_header: "entry_of line_header = None"
  unfolding entry_of_def re_search_def earning_re_def line_header_def by (simp add: str_eval)

lemma search_hourly:
  "re_search earning_re (py_strip line_hourly) =
     Some [1 \<mapsto> ascii ''Hourly-'', 2 \<mapsto> ascii ''01/02/25'', 3 \<mapsto> ascii ''10.00'',
           4 \<mapsto> ascii ''5.00'', 5 \<mapsto> ascii ''50.00'']"
  unfolding re_search_def earning_re_def line_hourly_def by (simp add: str_eval)

lemma entry_of_hourly: "entry_of line_hourly = Some hourly_entry"
  unfolding entry_of_def search_hourly
  by (simp add: clean_value_10 clean_value_5 clean_value_50 hourly_entry_def)
    (simp add: str_eval)

lemma entry_of_total: "entry_of line_total = None"
  unfolding entry_of_def re_search_def earning_re_def line_total_def by (simp add: str_eval)

lemma totals_of_header: "totals_of line_header = None"
  unfolding totals_of_def re_search_def total_re_def line_header_def by (simp add: str_eval)

lemma search_total:
  "re_search total_re (py_strip line_total) = Some [1 \<mapsto> ascii ''5.00'', 2 \<mapsto> ascii ''50.00'']"
  unfolding re_search_def total_re_def line_total_def by (simp add: str_eval)

lemma totals_of_total: "totals_of line_total = Some (Some (Finite False 5), Some (Finite False 50))"
  unfolding totals_of_def search_total
  by (simp add: clean_value_5 clean_value_50) (simp add: str_eval line_total_def)

subsection \<open>Scenario 1\<close>

lemma split_scenario_one:
  "py_split 10 (line_header @ [10] @ line_hourly @ [10] @ line_total) =
     [line_header, line_hourly, line_total]"
  by (simp add: line_header_def line_hourly_def line_total_def ascii_def en_dash_def)

lemma records_scenario_one:
  "spec_records [line_header, line_hourly, line_total] =
     [smith\<lparr>earnings := [hourly_entry], total_hours := Some (Some (Finite False 5)),
             total_amount := Some (Some (Finite False 50))\<rparr>]"
  by (simp add: header_of_header header_of_hourly header_of_total entry_of_header entry_of_hourly
      entry_of_total totals_of_header totals_of_total apply_line_def new_employee_def
      add_earning_def set_totals_def smith_def)

text \<open>
  C3. Parsing the three lines of Scenario 1 (a header line with an en dash, an hourly row,
  a total line) with a fresh extractor gives exactly one employee, 1001, "Smith, John",
  with the one entry Hourly, 01/02/25, rate 10.0, hours 5.0, amount 50.0, and the totals
  5.0 and 50.0.
\<close>

theorem scenario_one:
  "parse_text_data (init path)
     (ascii ''1001 '' @ [en_dash] @ ascii '' Smith, John'' @ [10] @
      ascii ''Hourly- 01/02/25 10.00 5.00 50.00'' @ [10] @
      ascii ''Total Earnings: 5.00 50.00'') =
   Inr \<lparr>pdf_path = path, data = \<lparr>employees =
     [\<lparr>employee_id = ascii ''1001'', employee_name = ascii ''Smith, John'',
       earnings = [\<lparr>type = ascii ''Hourly'', date = ascii ''01/02/25'',
                    rate = Some (Finite False 10), hours = Some (Finite False 5),
                    amount = Some (Finite False 50)\<rparr>],
       total_hours = Some (Some (Finite False 5)),
       total_amount = Some (Some (Finite False 50))\<rparr>]\<rparr>\<rparr>"
proof -
  have "ascii ''1001 '' @ [en_dash] @ ascii '' Smith, John'' @ [10] @
      ascii ''Hourly- 01/02/25 10.00 5.00 50.00'' @ [10] @ ascii ''Total Earnings: 5.00 50.00'' =
      line_header @ [10] @ line_hourly @ [10] @ line_total"
    by (simp add: line_header_def line_hourly_def line_total_def)
  then show ?thesis
    by (simp only: parse_text_data_records split_scenario_one records_scenario_one)
      (simp add: init_def smith_def hourly_entry_def)
qed

subsection \<open>More evaluation\<close>

lemma round_400: "round_double False 400 (Suc (Suc 0)) = Finite False 4"
  unfolding round_eval by (simp add: bitlen.simps)

lemma round_4000: "round_double False 4000 (Suc (Suc 0)) = Finite False 40"
  unfolding round_eval by (simp add: bitlen.simps)

lemma round_900: "round_double False 900 (Suc (Suc 0)) = Finite False 9"
  unfolding round_eval by (simp add: bitlen.simps)

lemma round_9000: "round_double False 9000 (Suc (Suc 0)) = Finite False 90"
  unfolding round_eval by (simp add: bitlen.simps)

lemma round_123456:
  "round_double False 123456 (Suc (Suc 0)) = Finite False (2714826150374277 / 2199023255552)"
  unfolding round_eval by (simp add: bitlen.simps)

lemma clean_value_4: "clean_value (Some (ascii ''4.00'')) = Some (Finite False 4)"
  unfolding clean_value_def clean_currency_def float_eval Let_def
  by (simp add: str_eval round_400)

lemma clean_value_40: "clean_value (Some (ascii ''40.00'')) = Some (Finite False 40)"
  unfolding clean_value_def clean_currency_def float_eval Let_def
  by (simp add: str_eval round_4000)

lemma clean_value_9: "clean_value (Some (ascii ''9.00'')) = Some (Finite False 9)"
  unfolding clean_value_def clean_currency_def float_eval Let_def
  by (simp add: str_eval round_900)

lemma clean_value_90: "clean_value (Some (ascii ''90.00'')) = Some (Finite False 90)"
  unfolding clean_value_def clean_currency_def float_eval Let_def
  by (simp add: str_eval round_9000)

lemma header_of_hourly2: "header_of line_hourly2 = None"
  unfolding header_of_def re_match_def header_re_def line_hourly2_def by (simp add: str_eval)

lemma header_of_total2: "header_of line_total2 = None"
  unfolding header_of_def re_match_def header_re_def line_total2_def by (simp add: str_eval)

lemma header_of_total_one: "header_of line_total_one = None"
  unfolding header_of_def re_match_def header_re_def line_total_one_def by (simp add: str_eval)

lemma header_of_overtime: "header_of line_overtime = None"
  unfolding header_of_def re_match_def header_re_def line_overtime_def by (simp add: str_eval)

lemma header_of_both: "header_of line_both = None"
  unfolding header_of_def re_match_def header_re_def line_both_def by (simp add: str_eval)

lemma match_noise: "re_match header_re (py_strip line_noise) = None"
  unfolding re_match_def header_re_def line_noise_def by (simp add: str_eval)

lemma search_hourly2:
  "re_search earning_re (py_strip line_hourly2) =
     Some [1 \<mapsto> ascii ''Hourly-'', 2 \<mapsto> ascii ''01/03/25'', 3 \<mapsto> ascii ''10.00'',
           4 \<mapsto> ascii ''4.00'', 5 \<mapsto> ascii ''40.00'']"
  unfolding re_search_def earning_re_def line_hourly2_def by (simp add: str_eval)

lemma entry_of_hourly2: "entry_of line_hourly2 = Some hourly_entry2"
  unfolding entry_of_def search_hourly2
  by (simp add: clean_value_10 clean_value_4 clean_value_40 hourly_entry2_def)
    (simp add: str_eval)

lemma search_both:
  "re_search earning_re (py_strip line_both) =
     Some [1 \<mapsto> ascii ''Hourly-'', 2 \<mapsto> ascii ''01/03/25'', 3 \<mapsto> ascii ''10.00'',
           4 \<mapsto> ascii ''4.00'', 5 \<mapsto> ascii ''40.00'']"
  unfolding re_search_def earning_re_def line_both_def by (simp add: str_eval)

lemma entry_of_both: "entry_of line_both = Some hourly_entry2"
  unfolding entry_of_def search_both
  by (simp add: clean_value_10 clean_value_4 clean_value_40 hourly_entry2_def)
    (simp add: str_eval)

lemma entry_of_total2: "entry_of line_total2 = None"
  unfolding entry_of_def re_search_def earning_re_def line_total2_def by (simp add: str_eval)

lemma entry_of_total_one: "entry_of line_total_one = None"
  unfolding entry_of_def re_search_def earning_re_def line_total_one_def by (simp add: str_eval)

lemma search_overtime: "re_search earning_re (py_strip line_overtime) = None"
  unfolding re_search_def earning_re_def line_overtime_def by (simp add: str_eval)

lemma entry_of_overtime: "entry_of line_overtime = None"
  unfolding entry_of_def search_overtime by simp

lemma search_noise: "re_search earning_re (py_strip line_noise) = None"
  unfolding re_search_def earning_re_def line_noise_def by (simp add: str_eval)

lemma search_total_noise: "re_search total_re (py_strip line_noise) = None"
  unfolding re_search_def total_re_def line_noise_def by (simp add: str_eval)

lemma search_total2:
  "re_search total_re (py_strip line_total2) = Some [1 \<mapsto> ascii ''9.00'', 2 \<mapsto> ascii ''90.00'']"
  unfolding re_search_def total_re_def line_total2_def by (simp add: str_eval)

lemma totals_of_total2: "totals_of line_total2 = Some (Some (Finite False 9), Some (Finite False 90))"
  unfolding totals_of_def search_total2
  by (simp add: clean_value_9 clean_value_90) (simp add: str_eval line_total2_def)

lemma search_total_both:
  "re_search total_re (py_strip line_both) = Some [1 \<mapsto> ascii ''9.00'', 2 \<mapsto> ascii ''90.00'']"
  unfolding re_search_def total_re_def line_both_def by (simp add: str_eval)

lemma search_total_one: "re_search total_re (py_strip line_total_one) = None"
  unfolding re_search_def total_re_def line_total_one_def by (simp add: str_eval)

lemma contains_total_one: "py_contains (ascii ''Total Earnings:'') (py_strip line_total_one)"
  unfolding line_total_one_def by (simp add: str_eval)

lemma totals_of_total_one: "totals_of line_total_one = None"
  unfolding totals_of_def search_total_one by simp

lemma totals_of_hourly: "totals_of line_hourly = None"
  unfolding totals_of_def re_search_def total_re_def line_hourly_def by (simp add: str_eval)

lemma totals_of_hourly2: "totals_of line_hourly2 = None"
  unfolding totals_of_def re_search_def total_re_def line_hourly2_def by (simp add: str_eval)

subsection \<open>Ownership of the earnings entries\<close>

lemma spec_records_no_header:
  "\<forall>l \<in> set ls. header_of l = None \<Longrightarrow> spec_records ls = []"
  by (induction ls) simp_all

text \<open>
  C2. Every earnings entry of the output belongs to exactly one employee record, the one
  opened by the latest header line at or before the line of the entry: the records of the
  output are, in order, one for each header line, and the earnings of each are the rows
  of its header line and of the lines up to the next header line. A row before any
  header line gives no record and no entry.
\<close>

theorem entries_owned_by_latest_header:
  "(\<exists>emps cur. parse_lines ls ([], None) = Inr (emps, cur) \<and>
       map (\<lambda>e. (employee_id e, employee_name e, earnings e)) emps = owned_entries ls \<and>
       ((\<forall>l \<in> set ls. header_of l = None) \<longrightarrow> emps = [])) \<and>
   (\<exists>r. parse_text_data (init path) text = Inr r \<and>
       map (\<lambda>e. (employee_id e, employee_name e, earnings e)) (employees (data r)) =
         owned_entries (py_split 10 text))"
proof
  obtain cur where "parse_lines ls ([], None) = Inr ([] @ spec_records ls, cur)"
    using parse_lines_records by blast
  then show "\<exists>emps cur. parse_lines ls ([], None) = Inr (emps, cur) \<and>
       map (\<lambda>e. (employee_id e, employee_name e, earnings e)) emps = owned_entries ls \<and>
       ((\<forall>l \<in> set ls. header_of l = None) \<longrightarrow> emps = [])"
    using owned_entries_spec[of ls] spec_records_no_header[of ls] by auto
next
  show "\<exists>r. parse_text_data (init path) text = Inr r \<and>
       map (\<lambda>e. (employee_id e, employee_name e, earnings e)) (employees (data r)) =
         owned_entries (py_split 10 text)"
    by (simp add: parse_text_data_records init_def owned_entries_spec)
qed

theorem entries_owned_by_latest_header_witness:
  "(\<exists>cur. parse_lines [line_hourly] ([], None) = Inr ([], cur)) \<and>
   (\<exists>emps cur. parse_lines [line_hourly, line_header, line_hourly2] ([], None) = Inr (emps, cur) \<and>
      map (\<lambda>e. (employee_id e, employee_name e, earnings e)) emps =
        [(ascii ''1001'', ascii ''Smith, John'', [hourly_entry2])])"
proof
  from entries_owned_by_latest_header[of "[line_hourly]"]
  obtain emps cur where "parse_lines [line_hourly] ([], None) = Inr (emps, cur)"
    "(\<forall>l \<in> set [line_hourly]. header_of l = None) \<longrightarrow> emps = []"
    by blast
  moreover have "\<forall>l \<in> set [line_hourly]. header_of l = None"
    by (simp add: header_of_hourly)
  ultimately show "\<exists>cur. parse_lines [line_hourly] ([], None) = Inr ([], cur)"
    by metis
next
  have "owned_entries [line_hourly, line_header, line_hourly2] =
      [(ascii ''1001'', ascii ''Smith, John'', [hourly_entry2])]"
    by (simp add: header_of_hourly header_of_header header_of_hourly2 entry_of_header
        entry_of_hourly2 List.map_filter_simps)
  moreover from entries_owned_by_latest_header[of "[line_hourly, line_header, line_hourly2]"]
  obtain emps cur where
    "parse_lines [line_hourly, line_header, line_hourly2] ([], None) = Inr (emps, cur)"
    "map (\<lambda>e. (employee_id e, employee_name e, earnings e)) emps =
       owned_entries [line_hourly, line_header, line_hourly2]"
    by blast
  ultimately show "\<exists>emps cur. parse_lines [line_hourly, line_header, line_hourly2] ([], None) = Inr (emps, cur) \<and>
      map (\<lambda>e. (employee_id e, employee_name e, earnings e)) emps =
        [(ascii ''1001'', ascii ''Smith, John'', [hourly_entry2])]"
    by metis
qed

subsection \<open>No error, and lines that match nothing\<close>

lemma header_of_None: "header_of raw = None \<longleftrightarrow> re_match header_re (py_strip raw) = None"
  by (auto simp: header_of_def split: option.splits dest: header_groups)

lemma entry_of_None: "entry_of raw = None \<longleftrightarrow> re_search earning_re (py_strip raw) = None"
  by (auto simp: entry_of_def split: option.splits dest: earning_groups)

lemma totals_of_None: "re_search total_re (py_strip raw) = None \<Longrightarrow> totals_of raw = None"
  by (simp add: totals_of_def)

lemma step_no_pattern:
  "header_of raw = None \<Longrightarrow> entry_of raw = None \<Longrightarrow> totals_of raw = None \<Longrightarrow> step raw st = st"
  by (cases st) (simp add: step_def Let_def apply_line_none update_at_ident split: option.splits)

text \<open>
  C8. The parse never raises, whatever the lines: the loop and \<open>parse_text_data\<close> always
  return a result; a line that matches none of the three patterns leaves the state as it
  is; and a text in which no line matches any pattern leaves a fresh extractor with its
  empty employee list.
\<close>

theorem parse_never_raises:
  "(\<exists>st'. parse_lines ls st = Inr st') \<and>
   (\<exists>r. parse_text_data self text = Inr r) \<and>
   (\<exists>v'. clean_currency v = Inr v') \<and>
   (re_match header_re (py_strip l) = None \<and> re_search earning_re (py_strip l) = None \<and>
      re_search total_re (py_strip l) = None \<longrightarrow> loop_body l st = Inr st) \<and>
   ((\<forall>x \<in> set (py_split 10 text).
        re_match header_re (py_strip x) = None \<and> re_search earning_re (py_strip x) = None \<and>
        re_search total_re (py_strip x) = None) \<longrightarrow>
      parse_text_data (init path) text = Inr (init path))"
proof (intro conjI impI)
  show "\<exists>st'. parse_lines ls st = Inr st'" by (simp add: parse_lines_run)
  show "\<exists>r. parse_text_data self text = Inr r" by (simp add: parse_text_data_records)
  show "\<exists>v'. clean_currency v = Inr v'" by (simp add: clean_currency_Inr)
next
  assume "re_match header_re (py_strip l) = None \<and> re_search earning_re (py_strip l) = None \<and>
      re_search total_re (py_strip l) = None"
  then have "step l st = st"
    by (intro step_no_pattern) (simp_all add: header_of_None entry_of_None totals_of_None)
  then show "loop_body l st = Inr st" by (simp add: loop_body_step)
next
  assume "\<forall>x \<in> set (py_split 10 text).
        re_match header_re (py_strip x) = None \<and> re_search earning_re (py_strip x) = None \<and>
        re_search total_re (py_strip x) = None"
  then have "spec_records (py_split 10 text) = []"
    by (intro spec_records_no_header) (simp add: header_of_None)
  then show "parse_text_data (init path) text = Inr (init path)"
    by (simp add: parse_text_data_records init_def)
qed

lemma split_noise: "py_split 10 line_noise = [line_noise]"
  by (simp add: line_noise_def ascii_def)

theorem parse_never_raises_witness:
  "loop_body line_noise ([smith], Some 0) = Inr ([smith], Some 0) \<and>
   parse_text_data (init []) line_noise = Inr (init [])"
  using parse_never_raises[of _ "([smith], Some 0)" _ line_noise _ line_noise "[]"]
  by (simp add: match_noise search_noise search_total_noise split_noise)

subsection \<open>Determinism\<close>

text \<open>
  C9. Parsing the same text with two fresh extractors gives results equal in every
  field: the data of the result is a function of the lines alone (the records that the
  lines describe), whatever the path the extractor was created with, and nothing of one
  extractor reaches the other.
\<close>

theorem parse_deterministic:
  "\<exists>d. map_sum id data (parse_text_data (init p1) text) = Inr d \<and>
       map_sum id data (parse_text_data (init p2) text) = Inr d \<and>
       employees d = spec_records (py_split 10 text)"
  by (simp add: parse_text_data_records init_def)

subsection \<open>Totals\<close>

lemma length_update_at: "length (update_at i f xs) = length xs"
  by (simp add: update_at_def)

lemma nth_update_at:
  "j < length xs \<Longrightarrow> update_at i f xs ! j = (if j = i then f (xs ! j) else xs ! j)"
  by (simp add: update_at_def)

lemma apply_line_keeps_totals:
  "entry_of raw \<noteq> None \<or> totals_of raw = None \<Longrightarrow>
     total_hours (apply_line raw e) = total_hours e \<and> total_amount (apply_line raw e) = total_amount e"
  by (auto simp: apply_line_def add_earning_def split: option.splits)

lemma step_unmatched_total:
  assumes "totals_of raw = None"
  shows "length (fst st) \<le> length (fst (step raw st)) \<and>
     (\<forall>i < length (fst (step raw st)).
        total_hours (fst (step raw st) ! i) =
          (if i < length (fst st) then total_hours (fst st ! i) else None) \<and>
        total_amount (fst (step raw st) ! i) =
          (if i < length (fst st) then total_amount (fst st ! i) else None))"
proof (cases "header_of raw")
  case None
  show ?thesis
  proof (cases "snd st")
    case None
    with \<open>header_of raw = None\<close> show ?thesis by (simp add: step_def)
  next
    case (Some c)
    with \<open>header_of raw = None\<close> assms show ?thesis
      by (simp add: step_def length_update_at nth_update_at apply_line_keeps_totals)
  qed
next
  case (Some h)
  have "step raw st = (fst st @ [apply_line raw (new_employee h)], Some (length (fst st)))"
    using Some by (simp add: step_def update_at_last)
  moreover have "total_hours (apply_line raw (new_employee h)) = None"
    "total_amount (apply_line raw (new_employee h)) = None"
    using assms by (simp_all add: apply_line_keeps_totals new_employee_def)
  ultimately show ?thesis
    by (auto simp: nth_append)
qed

text \<open>
  C7. A line on which the total pattern (the marker followed by two numbers) does not
  match, such as a "Total Earnings:" line with one number, changes no total: the totals
  of every record are what they were (unset if they were unset), a record the line itself
  opens has none, and the loop goes on with the next line without an error.
\<close>

theorem unmatched_total_leaves_totals:
  assumes "re_search total_re (py_strip raw) = None"
  shows "\<exists>st'. loop_body raw st = Inr st' \<and>
     parse_lines (raw # rest) st = parse_lines rest st' \<and>
     length (fst st) \<le> length (fst st') \<and>
     (\<forall>i < length (fst st').
        total_hours (fst st' ! i) = (if i < length (fst st) then total_hours (fst st ! i) else None) \<and>
        total_amount (fst st' ! i) = (if i < length (fst st) then total_amount (fst st ! i) else None))"
proof -
  have "totals_of raw = None" using assms by (rule totals_of_None)
  from step_unmatched_total[OF this, of st] show ?thesis
    by (intro exI[of _ "step raw st"]) (simp add: loop_body_step bind_err_def)
qed

theorem unmatched_total_leaves_totals_witness:
  "py_contains (ascii ''Total Earnings:'') (py_strip line_total_one) \<and>
   (\<exists>emps cur. loop_body line_total_one ([smith], Some 0) = Inr (emps, cur) \<and>
      parse_lines [line_total_one, line_hourly] ([smith], Some 0) =
        parse_lines [line_hourly] (emps, cur) \<and>
      total_hours (emps ! 0) = None \<and> total_amount (emps ! 0) = None)"
proof
  show "py_contains (ascii ''Total Earnings:'') (py_strip line_total_one)"
    by (rule contains_total_one)
next
  from unmatched_total_leaves_totals[OF search_total_one, of "([smith], Some 0)" "[line_hourly]"]
  obtain st' where a: "loop_body line_total_one ([smith], Some 0) = Inr st'"
    and b: "parse_lines [line_total_one, line_hourly] ([smith], Some 0) = parse_lines [line_hourly] st'"
    and c: "length (fst ([smith], Some (0::nat))) \<le> length (fst st')"
    and d: "\<forall>i < length (fst st').
        total_hours (fst st' ! i) =
          (if i < length (fst ([smith], Some (0::nat))) then total_hours (fst ([smith], Some (0::nat)) ! i) else None) \<and>
        total_amount (fst st' ! i) =
          (if i < length (fst ([smith], Some (0::nat))) then total_amount (fst ([smith], Some (0::nat)) ! i) else None)"
    by blast
  from c have "0 < length (fst st')" by (cases "fst st'") simp_all
  with d have "total_hours (fst st' ! 0) = None \<and> total_amount (fst st' ! 0) = None"
    by (auto simp: smith_def)
  with a b show "\<exists>emps cur. loop_body line_total_one ([smith], Some 0) = Inr (emps, cur) \<and>
      parse_lines [line_total_one, line_hourly] ([smith], Some 0) =
        parse_lines [line_hourly] (emps, cur) \<and>
      total_hours (emps ! 0) = None \<and> total_amount (emps ! 0) = None"
    by (cases st') auto
qed

lemma step_keeps_current_is_last: "current_is_last st \<Longrightarrow> current_is_last (step raw st)"
  by (cases st)
    (auto simp: current_is_last_def step_def Let_def length_update_at split: option.splits)

lemma run_keeps_current_is_last: "current_is_last st \<Longrightarrow> current_is_last (run ls st)"
  by (induction ls arbitrary: st) (simp_all add: step_keeps_current_is_last)

lemma run_append: "run (xs @ ys) st = run ys (run xs st)"
  by (induction xs arbitrary: st) simp_all

lemma run_keeps_totals:
  assumes "\<forall>x \<in> set post. header_of x = None \<and> (entry_of x \<noteq> None \<or> totals_of x = None)"
  shows "\<exists>emps'. run post (emps, Some i) = (emps', Some i) \<and> length emps' = length emps \<and>
     (\<forall>j < length emps. total_hours (emps' ! j) = total_hours (emps ! j) \<and>
                          total_amount (emps' ! j) = total_amount (emps ! j))"
  using assms
proof (induction post arbitrary: emps)
  case Nil
  show ?case by simp
next
  case (Cons x post)
  let ?e1 = "update_at i (apply_line x) emps"
  have s: "step x (emps, Some i) = (?e1, Some i)"
    using Cons.prems by (simp add: step_def)
  have k: "\<forall>j < length emps. total_hours (?e1 ! j) = total_hours (emps ! j) \<and>
                          total_amount (?e1 ! j) = total_amount (emps ! j)"
    using Cons.prems by (simp add: nth_update_at apply_line_keeps_totals)
  from Cons.IH[of ?e1] Cons.prems obtain emps' where
    "run post (?e1, Some i) = (emps', Some i)" "length emps' = length ?e1"
    "\<forall>j < length ?e1. total_hours (emps' ! j) = total_hours (?e1 ! j) \<and>
                          total_amount (emps' ! j) = total_amount (?e1 ! j)"
    by auto
  with s k show ?case by (simp add: length_update_at)
qed

subsection \<open>The last total line wins\<close>

text \<open>
  C10, as the code has it. When a line reaches the total block with a match while a record
  is current (the line is no header line and holds no earnings row, which would be
  appended and end the turn before the total block), the totals of the current record
  are the two values of that line, whatever totals the earlier lines had set, and they
  stay so as long as no later line opens a record or sets totals in its turn.
\<close>

theorem last_total_line_wins:
  assumes "parse_lines pre (emps0, None) = Inr (emps, Some i)"
    and "header_of l = None" and "entry_of l = None" and "totals_of l = Some (h, a)"
    and "\<forall>x \<in> set post. header_of x = None \<and> (entry_of x \<noteq> None \<or> totals_of x = None)"
  shows "\<exists>emps'. parse_lines (pre @ l # post) (emps0, None) = Inr (emps', Some i) \<and>
     i < length emps' \<and> total_hours (emps' ! i) = Some h \<and> total_amount (emps' ! i) = Some a"
proof -
  from assms(1) have r: "run pre (emps0, None) = (emps, Some i)"
    by (simp add: parse_lines_run)
  have "current_is_last (run pre (emps0, None))"
    by (rule run_keeps_current_is_last) (simp add: current_is_last_def)
  with r have i: "i < length emps" by (simp add: current_is_last_def)
  let ?e1 = "update_at i (set_totals (h, a)) emps"
  have s: "step l (emps, Some i) = (?e1, Some i)"
    using assms(2-4) by (simp add: step_def apply_line_totals)
  have t: "total_hours (?e1 ! i) = Some h" "total_amount (?e1 ! i) = Some a"
    using i by (simp_all add: nth_update_at set_totals_def)
  from run_keeps_totals[OF assms(5), of ?e1 i] obtain emps' where
    e: "run post (?e1, Some i) = (emps', Some i)" "length emps' = length ?e1"
      "\<forall>j < length ?e1. total_hours (emps' ! j) = total_hours (?e1 ! j) \<and>
                          total_amount (emps' ! j) = total_amount (?e1 ! j)"
    by blast
  have "parse_lines (pre @ l # post) (emps0, None) = Inr (emps', Some i)"
    by (simp add: parse_lines_run run_append r s e(1))
  moreover have "i < length emps'" using i e(2) by (simp add: length_update_at)
  moreover have "total_hours (emps' ! i) = Some h \<and> total_amount (emps' ! i) = Some a"
    using e(3) i t by (simp add: length_update_at)
  ultimately show ?thesis by blast
qed

lemma run_header_total:
  "run [line_header, line_total] ([], None) =
     ([smith\<lparr>total_hours := Some (Some (Finite False 5)),
              total_amount := Some (Some (Finite False 50))\<rparr>], Some 0)"
  by (simp add: step_def update_at_def apply_line_def header_of_header header_of_total
      entry_of_header entry_of_total totals_of_header totals_of_total new_employee_def
      set_totals_def smith_def)

theorem last_total_line_wins_witness:
  "\<exists>emps'. parse_lines [line_header, line_total, line_total2, line_hourly2] ([], None) =
       Inr (emps', Some 0) \<and>
     total_hours (emps' ! 0) = Some (Some (Finite False 9)) \<and>
     total_amount (emps' ! 0) = Some (Some (Finite False 90))"
proof -
  have a: "parse_lines [line_header, line_total] ([], None) =
      Inr ([smith\<lparr>total_hours := Some (Some (Finite False 5)),
              total_amount := Some (Some (Finite False 50))\<rparr>], Some 0)"
    by (simp only: parse_lines_run run_header_total)
  have b: "\<forall>x \<in> set [line_hourly2]. header_of x = None \<and> (entry_of x \<noteq> None \<or> totals_of x = None)"
    by (simp add: header_of_hourly2 entry_of_hourly2)
  from last_total_line_wins[OF a header_of_total2 entry_of_total2 totals_of_total2 b]
  show ?thesis by auto
qed

text \<open>
  The claim as it is written fails on a line that holds an earnings row besides the total:
  the total pattern matches the line, with 9.00 and 90.00, but the row is appended, the
  turn ends there, and the totals stay those of the earlier line.
\<close>

theorem last_total_line_counterexample:
  "re_search total_re (py_strip line_both) = Some [1 \<mapsto> ascii ''9.00'', 2 \<mapsto> ascii ''90.00''] \<and>
   parse_text_data (init []) (line_header @ [10] @ line_total @ [10] @ line_both) =
     Inr \<lparr>pdf_path = [], data = \<lparr>employees =
       [\<lparr>employee_id = ascii ''1001'', employee_name = ascii ''Smith, John'',
         earnings = [hourly_entry2],
         total_hours = Some (Some (Finite False 5)),
         total_amount = Some (Some (Finite False 50))\<rparr>]\<rparr>\<rparr>"
proof
  show "re_search total_re (py_strip line_both) = Some [1 \<mapsto> ascii ''9.00'', 2 \<mapsto> ascii ''90.00'']"
    by (rule search_total_both)
next
  have sp: "py_split 10 (line_header @ [10] @ line_total @ [10] @ line_both) =
      [line_header, line_total, line_both]"
    by (simp add: line_header_def line_total_def line_both_def ascii_def en_dash_def)
  have "spec_records [line_header, line_total, line_both] =
      [smith\<lparr>earnings := [hourly_entry2], total_hours := Some (Some (Finite False 5)),
              total_amount := Some (Some (Finite False 50))\<rparr>]"
    by (simp add: header_of_header header_of_total header_of_both entry_of_header entry_of_total
        entry_of_both totals_of_header totals_of_total apply_line_def new_employee_def
        add_earning_def set_totals_def smith_def)
  then show "parse_text_data (init []) (line_header @ [10] @ line_total @ [10] @ line_both) =
     Inr \<lparr>pdf_path = [], data = \<lparr>employees =
       [\<lparr>employee_id = ascii ''1001'', employee_name = ascii ''Smith, John'',
         earnings = [hourly_entry2],
         total_hours = Some (Some (Finite False 5)),
         total_amount = Some (Some (Finite False 50))\<rparr>]\<rparr>\<rparr>"
    by (simp only: parse_text_data_records sp) (simp add: init_def smith_def)
qed

subsection \<open>Numeric cleaning\<close>

lemma to_decimal_in_Some:
  "to_decimal_in zs c = Some d \<Longrightarrow> \<exists>z \<in> set zs. z \<le> c \<and> c < z + 10"
  by (induction zs) (auto split: if_splits)

lemma decimal_zeros_ranges:
  "z \<in> set decimal_zeros \<Longrightarrow>
     z = 48 \<or> (1632 \<le> z \<and> z \<le> 4240) \<or> (6112 \<le> z \<and> z \<le> 7248) \<or> 42528 \<le> z"
  unfolding decimal_zeros_def by (elim set_ConsD[elim_format] disjE; simp)

lemma isdecimal_ranges:
  "uni_isdecimal c \<Longrightarrow>
     (48 \<le> c \<and> c < 58) \<or> (1632 \<le> c \<and> c < 4250) \<or> (6112 \<le> c \<and> c < 7258) \<or> 42528 \<le> c"
proof -
  assume "uni_isdecimal c"
  then obtain d where "to_decimal_in decimal_zeros c = Some d"
    by (auto simp: uni_isdecimal_def uni_todecimal_def)
  from to_decimal_in_Some[OF this] obtain z where "z \<in> set decimal_zeros" "z \<le> c" "c < z + 10"
    by blast
  with decimal_zeros_ranges[of z] show ?thesis by arith
qed

lemma space_not_decimal: "uni_isspace c \<Longrightarrow> \<not> uni_isdecimal c"
  using isdecimal_ranges[of c] by (auto simp: uni_isspace_def)

lemma space_not_numeric: "uni_isspace c \<Longrightarrow> cls_not_numeric c"
  using space_not_decimal[of c] by (auto simp: cls_not_numeric_def uni_isspace_def)

lemma re_sub_class_filter: "re_sub_class P [] v = filter (\<lambda>c. \<not> P c) v"
  by (induction v) (simp_all add: re_sub_class_def)

lemma dropWhile_rev_Nil:
  "dropWhile P (rev (dropWhile P v)) = [] \<Longrightarrow> list_all P v"
proof -
  assume a: "dropWhile P (rev (dropWhile P v)) = []"
  then have "\<forall>x \<in> set (dropWhile P v). P x"
    by (metis dropWhile_eq_Nil_conv set_rev)
  then have "dropWhile P v = []"
    by (metis hd_dropWhile hd_in_set)
  then show ?thesis by (simp add: list_all_iff dropWhile_eq_Nil_conv)
qed

lemma py_strip_Nil: "py_strip v = [] \<Longrightarrow> list_all uni_isspace v"
  by (simp add: py_strip_def dropWhile_rev_Nil)

lemma py_float_Nil: "py_float [] = Inl ValueError"
  by (simp add: py_float_def float_body_def float_fraction_def float_finish_def)

lemma clean_currency_filter:
  "clean_currency (Some v) =
     Inr (case py_float (filter (\<lambda>c. uni_isdecimal c \<or> c = 46 \<or> c = 45) v) of
            Inl e \<Rightarrow> None | Inr x \<Rightarrow> Some x)"
proof (cases "v = [] \<or> py_strip v = []")
  case True
  then have "list_all uni_isspace v" by (auto dest: py_strip_Nil)
  then have "filter (\<lambda>c. uni_isdecimal c \<or> c = 46 \<or> c = 45) v = []"
    using space_not_numeric by (auto simp: list_all_iff filter_empty_conv cls_not_numeric_def)
  with True show ?thesis by (simp add: clean_currency_def py_float_Nil)
next
  case False
  have "re_sub_class cls_not_numeric [] v = filter (\<lambda>c. uni_isdecimal c \<or> c = 46 \<or> c = 45) v"
    by (simp add: re_sub_class_filter cls_not_numeric_def)
  with False show ?thesis
    by (auto simp: clean_currency_def Let_def py_float_Nil split: sum.splits error.splits)
qed

lemma clean_currency_dollars:
  "clean_currency (Some (ascii ''$1,234.56'')) = Inr (Some (round_double False 123456 (Suc (Suc 0))))"
  unfolding clean_currency_def float_eval Let_def by (simp add: str_eval)

lemma filter_abc: "filter (\<lambda>c. uni_isdecimal c \<or> c = 46 \<or> c = 45) (ascii ''abc'') = []"
  by (simp add: char_eval)

lemma filter_na: "filter (\<lambda>c. uni_isdecimal c \<or> c = 46 \<or> c = 45) (ascii ''n/a'') = []"
  by (simp add: char_eval)

text \<open>
  C4. For every token, \<open>clean_currency\<close> returns a value and never an error: what
  \<open>float\<close> reads in the token once every character that is no digit, point or minus
  sign is removed, and \<open>None\<close> when \<open>float\<close> rejects the rest or nothing is left. An
  absent or empty token gives \<open>None\<close>, "abc" gives \<open>None\<close>, and "$1,234.56" gives
  the double nearest to 1234.56.
\<close>

theorem clean_currency_spec:
  "clean_currency None = Inr None \<and>
   clean_currency (Some []) = Inr None \<and>
   clean_currency (Some v) =
     Inr (case py_float (filter (\<lambda>c. uni_isdecimal c \<or> c = 46 \<or> c = 45) v) of
            Inl e \<Rightarrow> None | Inr x \<Rightarrow> Some x) \<and>
   (filter (\<lambda>c. uni_isdecimal c \<or> c = 46 \<or> c = 45) v = [] \<longrightarrow> clean_currency (Some v) = Inr None) \<and>
   clean_currency (Some (ascii ''abc'')) = Inr None \<and>
   clean_currency (Some (ascii ''$1,234.56'')) = Inr (Some (round_double False 123456 2)) \<and>
   round_double False 123456 2 = Finite False (2714826150374277 / 2199023255552) \<and>
   \<bar>2714826150374277 / 2199023255552 - 123456 / (100::rat)\<bar> \<le> 1 / 2 ^ 43"
proof (intro conjI impI)
  show "clean_currency None = Inr None" by (simp add: clean_currency_def)
  show "clean_currency (Some []) = Inr None" by (simp add: clean_currency_def)
  show "clean_currency (Some v) =
     Inr (case py_float (filter (\<lambda>c. uni_isdecimal c \<or> c = 46 \<or> c = 45) v) of
            Inl e \<Rightarrow> None | Inr x \<Rightarrow> Some x)"
    by (rule clean_currency_filter)
  show "clean_currency (Some (ascii ''abc'')) = Inr None"
    by (simp only: clean_currency_filter filter_abc py_float_Nil) simp
  show "clean_currency (Some (ascii ''$1,234.56'')) = Inr (Some (round_double False 123456 2))"
    by (simp add: clean_currency_dollars numeral_2_eq_2)
  show "round_double False 123456 2 = Finite False (2714826150374277 / 2199023255552)"
    by (simp add: round_123456 numeral_2_eq_2)
  show "\<bar>2714826150374277 / 2199023255552 - 123456 / (100::rat)\<bar> \<le> 1 / 2 ^ 43"
    by simp
next
  assume "filter (\<lambda>c. uni_isdecimal c \<or> c = 46 \<or> c = 45) v = []"
  then show "clean_currency (Some v) = Inr None"
    by (simp only: clean_currency_filter py_float_Nil) simp
qed

theorem clean_currency_spec_witness: "clean_currency (Some (ascii ''n/a'')) = Inr None"
  using clean_currency_spec[of "ascii ''n/a''"] filter_na by blast

subsection \<open>Pages\<close>

lemma extract_pages_records:
  "extract_pages pages self =
     Inr (self\<lparr>data := \<lparr>employees = employees (data self) @ concat (map page_records pages)\<rparr>\<rparr>)"
proof (induction pages self rule: extract_pages.induct)
  case (1 self)
  show ?case by simp
next
  case (2 pages self)
  then show ?case by (simp add: page_records_def)
next
  case (3 t pages self)
  show ?case
  proof (cases "t = []")
    case True
    with 3 show ?thesis by (simp add: page_records_def)
  next
    case False
    with 3(1)[OF False, of "self\<lparr>data := \<lparr>employees = employees (data self) @ spec_records (py_split 10 t)\<rparr>\<rparr>"]
    show ?thesis
      by (simp add: parse_text_data_records bind_err_def page_records_def)
  qed
qed

lemma page_records_no_header:
  "\<forall>l \<in> set (py_split 10 text). header_of l = None \<Longrightarrow> page_records (Some text) = []"
  by (simp add: page_records_def spec_records_no_header)

text \<open>
  C1, as the code has it. The pages are parsed one at a time, in order, and the employee
  list grows from page to page; but the current employee is a local variable of
  \<open>parse_text_data\<close>, none at the start of every page. A later page changes no record
  of the pages before it: it appends the records of its own header lines, each with the
  rows that follow that header line on the same page, and a page without a header line
  appends nothing, so that its earnings rows are lost.
\<close>

theorem pages_are_parsed_separately:
  "\<exists>s1 s2. extract_pages pages self = Inr s1 \<and>
     extract_pages (pages @ [Some text]) self = Inr s2 \<and>
     extract_pdf self (pages @ [Some text]) = Inr (s2, data s2) \<and>
     employees (data s2) = employees (data s1) @ page_records (Some text) \<and>
     (text \<noteq> [] \<longrightarrow> page_records (Some text) = spec_records (py_split 10 text)) \<and>
     ((\<forall>l \<in> set (py_split 10 text). header_of l = None) \<longrightarrow>
        employees (data s2) = employees (data s1))"
  by (simp add: extract_pages_records extract_pdf_def bind_err_def page_records_no_header)
    (simp add: page_records_def)

lemma split_header_hourly:
  "py_split 10 (line_header @ 10 # line_hourly) = [line_header, line_hourly]"
  by (simp add: line_header_def line_hourly_def ascii_def en_dash_def)

lemma split_hourly2: "py_split 10 line_hourly2 = [line_hourly2]"
  by (simp add: line_hourly2_def ascii_def)

lemma records_header_hourly:
  "spec_records [line_header, line_hourly] = [smith\<lparr>earnings := [hourly_entry]\<rparr>]"
  by (simp add: header_of_header header_of_hourly entry_of_header entry_of_hourly
      totals_of_header apply_line_def new_employee_def add_earning_def smith_def)

lemma page_header_hourly:
  "page_records (Some (line_header @ 10 # line_hourly)) = [smith\<lparr>earnings := [hourly_entry]\<rparr>]"
proof -
  have "line_header @ 10 # line_hourly \<noteq> []" by simp
  then have "page_records (Some (line_header @ 10 # line_hourly)) =
      spec_records (py_split 10 (line_header @ 10 # line_hourly))"
    by (simp only: page_records_def option.case if_False)
  then show ?thesis by (simp only: split_header_hourly records_header_hourly)
qed

lemma page_hourly2: "page_records (Some line_hourly2) = []"
proof -
  have "page_records (Some line_hourly2) = (if line_hourly2 = [] then [] else spec_records [line_hourly2])"
    by (simp only: page_records_def option.case split_hourly2)
  then show ?thesis by (simp add: header_of_hourly2)
qed

theorem pages_are_parsed_separately_witness:
  "\<exists>s2. extract_pages ([Some (line_header @ 10 # line_hourly)] @ [Some line_hourly2]) (init []) = Inr s2 \<and>
     employees (data s2) = [smith\<lparr>earnings := [hourly_entry]\<rparr>]"
proof -
  from pages_are_parsed_separately[of "[Some (line_header @ 10 # line_hourly)]" "init []" line_hourly2]
  obtain s1 s2 where
    a: "extract_pages [Some (line_header @ 10 # line_hourly)] (init []) = Inr s1"
    and b: "extract_pages ([Some (line_header @ 10 # line_hourly)] @ [Some line_hourly2]) (init []) = Inr s2"
    and c: "(\<forall>l \<in> set (py_split 10 line_hourly2). header_of l = None) \<longrightarrow>
        employees (data s2) = employees (data s1)"
    by blast
  have "\<forall>l \<in> set (py_split 10 line_hourly2). header_of l = None"
    by (simp add: split_hourly2 header_of_hourly2)
  with c have d: "employees (data s2) = employees (data s1)" by blast
  have "extract_pages [Some (line_header @ 10 # line_hourly)] (init []) =
      Inr \<lparr>pdf_path = [], data = \<lparr>employees = [smith\<lparr>earnings := [hourly_entry]\<rparr>]\<rparr>\<rparr>"
    unfolding extract_pages_records by (simp add: page_header_hourly init_def)
  with a have "employees (data s1) = [smith\<lparr>earnings := [hourly_entry]\<rparr>]" by auto
  with b d show ?thesis by simp
qed

text \<open>
  The claim as it is written fails: the row on the second page, which has no header line
  of its own, is not appended to the record that the first page opened.
\<close>

theorem page_boundary_counterexample:
  "extract_pdf (init []) [Some (line_header @ 10 # line_hourly), Some line_hourly2] =
     Inr (\<lparr>pdf_path = [], data = \<lparr>employees = [smith\<lparr>earnings := [hourly_entry]\<rparr>]\<rparr>\<rparr>,
          \<lparr>employees = [smith\<lparr>earnings := [hourly_entry]\<rparr>]\<rparr>) \<and>
   smith\<lparr>earnings := [hourly_entry]\<rparr> \<noteq> smith\<lparr>earnings := [hourly_entry, hourly_entry2]\<rparr>"
  unfolding extract_pdf_def extract_pages_records
  by (simp add: page_header_hourly page_hourly2 init_def bind_err_def)
    (simp add: smith_def)

subsection \<open>The totals in the JSON output\<close>

lemma json_total_fields:
  "json_field (ascii ''total_hours'') (employee_json e) = map_option float_json (total_hours e)"
  "json_field (ascii ''total_amount'') (employee_json e) = map_option float_json (total_amount e)"
  by (simp_all add: json_field_def employee_json_def ascii_def split: option.splits)

lemma apply_line_total_tokens:
  "(total_hours (apply_line l e), total_amount (apply_line l e)) =
     (case total_tokens l of
        None \<Rightarrow> (total_hours e, total_amount e)
      | Some (g1, g2) \<Rightarrow> (Some (clean_value g1), Some (clean_value g2)))"
  by (auto simp: apply_line_def total_tokens_def totals_of_def add_earning_def set_totals_def
      split: option.splits)

lemma fill_total_tokens:
  "(total_hours (fill e ls), total_amount (fill e ls)) =
     (case last_total_tokens ls of
        None \<Rightarrow> (total_hours e, total_amount e)
      | Some (g1, g2) \<Rightarrow> (Some (clean_value g1), Some (clean_value g2)))"
proof (induction ls arbitrary: e)
  case Nil
  show ?case by simp
next
  case (Cons l ls)
  show ?case
  proof (cases "last_total_tokens ls")
    case None
    with Cons.IH[of "apply_line l e"] show ?thesis
      by (simp add: apply_line_total_tokens)
  next
    case (Some t)
    with Cons.IH[of "apply_line l e"] show ?thesis by simp
  qed
qed

lemma spec_records_totals:
  "map (\<lambda>e. (total_hours e, total_amount e)) (spec_records ls) =
     map (\<lambda>seg. case last_total_tokens seg of
                   None \<Rightarrow> (None, None)
                 | Some (g1, g2) \<Rightarrow> (Some (clean_value g1), Some (clean_value g2)))
       (owned_lines ls)"
proof (induction ls)
  case Nil
  show ?case by simp
next
  case (Cons l ls)
  show ?case
  proof (cases "header_of l")
    case None
    with Cons.IH show ?thesis by simp
  next
    case (Some h)
    have "(total_hours (fill (new_employee h) (l # takeWhile (\<lambda>x. header_of x = None) ls)),
           total_amount (fill (new_employee h) (l # takeWhile (\<lambda>x. header_of x = None) ls))) =
        (case last_total_tokens (l # takeWhile (\<lambda>x. header_of x = None) ls) of
           None \<Rightarrow> (None, None)
         | Some (g1, g2) \<Rightarrow> (Some (clean_value g1), Some (clean_value g2)))"
      unfolding fill_total_tokens by (simp add: new_employee_def split: option.splits)
    with Some Cons.IH show ?thesis by simp
  qed
qed

lemma token_json_clean: "token_json g = float_json (clean_value g)"
  by (simp add: token_json_def clean_currency_Inr float_json_def split: option.splits)

lemma json_employees_to_json:
  "json_employees (to_json r) = map employee_json (employees (data r))"
  by (simp add: json_employees_def json_field_def to_json_def)

lemma last_total_tokens_None:
  "\<forall>l \<in> set ls. total_tokens l = None \<Longrightarrow> last_total_tokens ls = None"
  by (induction ls) simp_all

lemma spec_records_no_totals:
  "\<forall>l \<in> set ls. total_tokens l = None \<Longrightarrow>
     \<forall>e \<in> set (spec_records ls). total_hours e = None \<and> total_amount e = None"
proof (induction ls)
  case Nil
  show ?case by simp
next
  case (Cons l ls)
  show ?case
  proof (cases "header_of l")
    case None
    with Cons show ?thesis by simp
  next
    case (Some h)
    have "\<forall>x \<in> set (l # takeWhile (\<lambda>x. header_of x = None) ls). total_tokens x = None"
      using Cons.prems by (auto dest: set_takeWhileD)
    then have "last_total_tokens (l # takeWhile (\<lambda>x. header_of x = None) ls) = None"
      by (rule last_total_tokens_None)
    with fill_total_tokens[of "new_employee h" "l # takeWhile (\<lambda>x. header_of x = None) ls"]
    have "total_hours (fill (new_employee h) (l # takeWhile (\<lambda>x. header_of x = None) ls)) = None \<and>
        total_amount (fill (new_employee h) (l # takeWhile (\<lambda>x. header_of x = None) ls)) = None"
      by (simp add: new_employee_def split: option.splits)
    with Some Cons show ?thesis by simp
  qed
qed

text \<open>
  C6, as the code has it. In the output of \<open>to_json\<close> after a parse, the object of an
  employee has the keys \<open>total_hours\<close> and \<open>total_amount\<close> exactly when one of the
  lines the record owns reached the total block with a match; the values are then those
  of the last such line, each a number when \<open>clean_currency\<close> reads one in the token
  and null when it returns \<open>None\<close>. The object of a record for which no total line
  matched has neither key, not a null.
\<close>

theorem totals_in_json:
  "\<exists>r. parse_text_data (init path) text = Inr r \<and>
     map (\<lambda>obj. (json_field (ascii ''total_hours'') obj, json_field (ascii ''total_amount'') obj))
       (json_employees (to_json r)) =
     map (\<lambda>seg. case last_total_tokens seg of
                   None \<Rightarrow> (None, None)
                 | Some (g1, g2) \<Rightarrow> (Some (token_json g1), Some (token_json g2)))
       (owned_lines (py_split 10 text)) \<and>
     ((\<forall>l \<in> set (py_split 10 text). total_tokens l = None) \<longrightarrow>
        (\<forall>obj \<in> set (json_employees (to_json r)).
           json_field (ascii ''total_hours'') obj = None \<and>
           json_field (ascii ''total_amount'') obj = None))"
proof -
  let ?r = "(init path)\<lparr>data := \<lparr>employees = spec_records (py_split 10 text)\<rparr>\<rparr>"
  have p: "parse_text_data (init path) text = Inr ?r"
    by (simp add: parse_text_data_records init_def)
  have j: "json_employees (to_json ?r) = map employee_json (spec_records (py_split 10 text))"
    by (simp add: json_employees_to_json)
  have "map (\<lambda>obj. (json_field (ascii ''total_hours'') obj, json_field (ascii ''total_amount'') obj))
       (map employee_json (spec_records (py_split 10 text))) =
     map (\<lambda>p. (map_option float_json (fst p), map_option float_json (snd p)))
       (map (\<lambda>e. (total_hours e, total_amount e)) (spec_records (py_split 10 text)))"
    by (simp add: json_total_fields)
  also have "\<dots> = map (\<lambda>seg. case last_total_tokens seg of
                   None \<Rightarrow> (None, None)
                 | Some (g1, g2) \<Rightarrow> (Some (token_json g1), Some (token_json g2)))
       (owned_lines (py_split 10 text))"
    unfolding spec_records_totals
    by (simp add: token_json_clean split: option.splits)
  finally have m: "map (\<lambda>obj. (json_field (ascii ''total_hours'') obj, json_field (ascii ''total_amount'') obj))
       (json_employees (to_json ?r)) =
     map (\<lambda>seg. case last_total_tokens seg of
                   None \<Rightarrow> (None, None)
                 | Some (g1, g2) \<Rightarrow> (Some (token_json g1), Some (token_json g2)))
       (owned_lines (py_split 10 text))"
    unfolding j .
  have n: "(\<forall>l \<in> set (py_split 10 text). total_tokens l = None) \<longrightarrow>
        (\<forall>obj \<in> set (json_employees (to_json ?r)).
           json_field (ascii ''total_hours'') obj = None \<and>
           json_field (ascii ''total_amount'') obj = None)"
    unfolding j using spec_records_no_totals[of "py_split 10 text"]
    by (auto simp: json_total_fields)
  from p m n show ?thesis by blast
qed

lemma header_of_total_bad: "header_of line_total_bad = None"
  unfolding header_of_def re_match_def header_re_def line_total_bad_def by (simp add: str_eval)

lemma entry_of_total_bad: "entry_of line_total_bad = None"
  unfolding entry_of_def re_search_def earning_re_def line_total_bad_def by (simp add: str_eval)

lemma search_total_bad:
  "re_search total_re (py_strip line_total_bad) = Some [1 \<mapsto> ascii ''1.2.3'', 2 \<mapsto> ascii ''50.00'']"
  unfolding re_search_def total_re_def line_total_bad_def by (simp add: str_eval)

lemma total_tokens_bad:
  "total_tokens line_total_bad = Some (Some (ascii ''1.2.3''), Some (ascii ''50.00''))"
  unfolding total_tokens_def search_total_bad entry_of_total_bad
  by simp (simp add: str_eval line_total_bad_def)

lemma total_tokens_header: "total_tokens line_header = None"
  unfolding total_tokens_def entry_of_header by (simp add: str_eval line_header_def)

lemma total_tokens_hourly: "total_tokens line_hourly = None"
  unfolding total_tokens_def entry_of_hourly by simp

lemma clean_value_bad: "clean_value (Some (ascii ''1.2.3'')) = None"
  unfolding clean_value_def clean_currency_def float_eval Let_def by (simp add: str_eval)

lemma split_header_total_bad:
  "py_split 10 (line_header @ 10 # line_total_bad) = [line_header, line_total_bad]"
  by (simp add: line_header_def line_total_bad_def ascii_def en_dash_def)

theorem totals_in_json_witness:
  "(\<exists>r. parse_text_data (init []) (line_header @ 10 # line_total_bad) = Inr r \<and>
      map (\<lambda>obj. (json_field (ascii ''total_hours'') obj, json_field (ascii ''total_amount'') obj))
        (json_employees (to_json r)) = [(Some JNull, Some (JNumber (Finite False 50)))]) \<and>
   (\<exists>r. parse_text_data (init []) (line_header @ 10 # line_hourly) = Inr r \<and>
      (\<forall>obj \<in> set (json_employees (to_json r)).
         json_field (ascii ''total_hours'') obj = None \<and>
         json_field (ascii ''total_amount'') obj = None))"
proof
  have "map (\<lambda>seg. case last_total_tokens seg of
                   None \<Rightarrow> (None, None)
                 | Some (g1, g2) \<Rightarrow> (Some (token_json g1), Some (token_json g2)))
       (owned_lines (py_split 10 (line_header @ 10 # line_total_bad))) =
      [(Some JNull, Some (JNumber (Finite False 50)))]"
    unfolding split_header_total_bad
    by (simp add: header_of_header header_of_total_bad total_tokens_bad token_json_clean
        clean_value_bad clean_value_50 float_json_def)
  with totals_in_json[of "[]" "line_header @ 10 # line_total_bad"]
  show "\<exists>r. parse_text_data (init []) (line_header @ 10 # line_total_bad) = Inr r \<and>
      map (\<lambda>obj. (json_field (ascii ''total_hours'') obj, json_field (ascii ''total_amount'') obj))
        (json_employees (to_json r)) = [(Some JNull, Some (JNumber (Finite False 50)))]"
    by auto
next
  have "\<forall>l \<in> set (py_split 10 (line_header @ 10 # line_hourly)). total_tokens l = None"
    unfolding split_header_hourly by (simp add: total_tokens_header total_tokens_hourly)
  with totals_in_json[of "[]" "line_header @ 10 # line_hourly"]
  show "\<exists>r. parse_text_data (init []) (line_header @ 10 # line_hourly) = Inr r \<and>
      (\<forall>obj \<in> set (json_employees (to_json r)).
         json_field (ascii ''total_hours'') obj = None \<and>
         json_field (ascii ''total_amount'') obj = None)"
    by blast
qed

text \<open>
  The claim as it is written fails: the employee of a text without a total line has no
  \<open>total_hours\<close> and no \<open>total_amount\<close> in the output.
\<close>

theorem totals_in_json_counterexample:
  "parse_text_data (init []) line_header = Inr \<lparr>pdf_path = [], data = \<lparr>employees = [smith]\<rparr>\<rparr> \<and>
   to_json \<lparr>pdf_path = [], data = \<lparr>employees = [smith]\<rparr>\<rparr> =
     JObject [(ascii ''employees'', JArray [JObject
       [(ascii ''employee_id'', JString (ascii ''1001'')),
        (ascii ''employee_name'', JString (ascii ''Smith, John'')),
        (ascii ''earnings'', JArray [])]])] \<and>
   json_field (ascii ''total_hours'') (employee_json smith) \<noteq> Some JNull \<and>
   json_field (ascii ''total_amount'') (employee_json smith) \<noteq> Some JNull"
proof -
  have sp: "py_split 10 line_header = [line_header]"
    by (simp add: line_header_def ascii_def en_dash_def)
  have "spec_records [line_header] = [smith]"
    by (simp add: header_of_header entry_of_header totals_of_header apply_line_def
        new_employee_def smith_def)
  then have "parse_text_data (init []) line_header = Inr \<lparr>pdf_path = [], data = \<lparr>employees = [smith]\<rparr>\<rparr>"
    by (simp only: parse_text_data_records sp) (simp add: init_def)
  moreover have "to_json \<lparr>pdf_path = [], data = \<lparr>employees = [smith]\<rparr>\<rparr> =
     JObject [(ascii ''employees'', JArray [JObject
       [(ascii ''employee_id'', JString (ascii ''1001'')),
        (ascii ''employee_name'', JString (ascii ''Smith, John'')),
        (ascii ''earnings'', JArray [])]])]"
    by (simp add: to_json_def employee_json_def smith_def)
  moreover have "json_field (ascii ''total_hours'') (employee_json smith) \<noteq> Some JNull"
    "json_field (ascii ''total_amount'') (employee_json smith) \<noteq> Some JNull"
    by (simp_all add: json_total_fields smith_def)
  ultimately show ?thesis by blast
qed

subsection \<open>The first match of a pattern\<close>

lemma first_match_Lit: "first_match (Lit u) (k, u @ s, g) = Some (k + length u, s, g)"
  by (simp add: first_match_def)

lemma greedy_longest:
  "list_all P w \<Longrightarrow> s = [] \<or> \<not> P (hd s) \<Longrightarrow>
     \<exists>more. greedy P g k (w @ s) = (k + length w, s, g) # more"
proof (induction w arbitrary: k)
  case Nil
  then show ?case by (cases s) auto
next
  case (Cons c w)
  from Cons.prems have "list_all P w" by simp
  from Cons.IH[OF this Cons.prems(2), of "Suc k"] obtain more where
    "greedy P g (Suc k) (w @ s) = (Suc k + length w, s, g) # more" by blast
  with Cons.prems(1) show ?case by simp
qed

lemma first_match_Plus:
  assumes "w \<noteq> []" and "list_all P w" and "s = [] \<or> \<not> P (hd s)"
  shows "first_match (Plus P) (k, w @ s, g) = Some (k + length w, s, g)"
proof -
  from assms(1) obtain c w' where w: "w = c # w'" by (cases w) auto
  with assms(2) have "P c" "list_all P w'" by simp_all
  from greedy_longest[OF this(2) assms(3), of g "Suc k"] obtain more where
    "greedy P g (Suc k) (w' @ s) = (Suc k + length w', s, g) # more" by blast
  with w \<open>P c\<close> show ?thesis by (simp add: first_match_def)
qed

lemma exactly_all:
  "length w = n \<Longrightarrow> list_all P w \<Longrightarrow> exactly n P g k (w @ s) = [(k + n, s, g)]"
proof (induction n arbitrary: w k)
  case 0
  then show ?case by simp
next
  case (Suc n)
  then obtain c w' where "w = c # w'" "length w' = n" by (cases w) auto
  with Suc show ?case by simp
qed

lemma first_match_Rep:
  "length w = n \<Longrightarrow> list_all P w \<Longrightarrow> first_match (Rep n P) (k, w @ s, g) = Some (k + n, s, g)"
  by (simp add: first_match_def exactly_all)

lemma first_match_Seq:
  assumes "first_match r1 st = Some st1" and "first_match r2 st1 = Some st2"
  shows "first_match (Seq r1 r2) st = Some st2"
proof -
  from assms(1) obtain xs where "rmatch r1 st = st1 # xs"
    by (auto simp: first_match_def split: list.splits)
  moreover from assms(2) obtain ys where "rmatch r2 st1 = st2 # ys"
    by (auto simp: first_match_def split: list.splits)
  ultimately show ?thesis by (simp add: first_match_def)
qed

lemma first_match_Grp:
  assumes "first_match r (k, w @ s, g) = Some (k + length w, s, g')"
  shows "first_match (Grp i r) (k, w @ s, g) = Some (k + length w, s, g'(i \<mapsto> w))"
  using assms by (auto simp: first_match_def split: list.splits)

subsection \<open>What a match implies\<close>

lemma greedy_sound:
  "(k', s', g') \<in> set (greedy P g k s) \<Longrightarrow> \<exists>w. s = w @ s' \<and> k' = k + length w \<and> list_all P w"
proof (induction s arbitrary: k)
  case Nil
  then show ?case by simp
next
  case (Cons c s)
  show ?case
  proof (cases "(k', s', g') = (k, c # s, g)")
    case True
    then show ?thesis by simp
  next
    case False
    with Cons.prems have "P c" "(k', s', g') \<in> set (greedy P g (Suc k) s)"
      by (auto split: if_splits)
    from Cons.IH[OF this(2)] obtain w where "s = w @ s'" "k' = Suc k + length w" "list_all P w"
      by blast
    with \<open>P c\<close> have "c # s = (c # w) @ s' \<and> k' = k + length (c # w) \<and> list_all P (c # w)"
      by simp
    then show ?thesis by blast
  qed
qed

lemma exactly_sound:
  "(k', s', g') \<in> set (exactly n P g k s) \<Longrightarrow>
     \<exists>w. s = w @ s' \<and> k' = k + length w \<and> length w = n \<and> list_all P w"
proof (induction n P g k s rule: exactly.induct)
  case (1 P g k s)
  then show ?case by simp
next
  case (2 n P g k)
  then show ?case by simp
next
  case (3 n P g k c s)
  then have "P c" "(k', s', g') \<in> set (exactly n P g (Suc k) s)"
    by (auto split: if_splits)
  from 3(1)[OF this] obtain w where
    "s = w @ s'" "k' = Suc k + length w" "length w = n" "list_all P w" by blast
  with \<open>P c\<close> have "c # s = (c # w) @ s' \<and> k' = k + length (c # w) \<and> length (c # w) = Suc n \<and>
      list_all P (c # w)" by simp
  then show ?case by blast
qed

lemma rmatch_sound:
  "(k', s', g') \<in> set (rmatch r (k, s, g)) \<Longrightarrow> \<exists>w. s = w @ s' \<and> k' = k + length w \<and> lang r k w"
proof (induction r arbitrary: k s g k' s' g')
  case Bol
  then show ?case by (auto split: if_splits)
next
  case (Lit u)
  then have "take (length u) s = u" "s' = drop (length u) s" "k' = k + length u"
    by (auto split: if_splits)
  then have "s = u @ s' \<and> k' = k + length u \<and> lang (Lit u) k u"
    by (metis append_take_drop_id lang.simps(2))
  then show ?case by blast
next
  case (Cls P)
  then show ?case by (auto dest!: exactly_sound)
next
  case (Star P)
  then show ?case by (auto dest!: greedy_sound)
next
  case (Plus P)
  then obtain c s0 where s: "s = c # s0" "P c" "(k', s', g') \<in> set (greedy P g (Suc k) s0)"
    by (auto split: list.splits if_splits)
  from greedy_sound[OF s(3)] obtain w where "s0 = w @ s'" "k' = Suc k + length w" "list_all P w"
    by blast
  with s have "s = (c # w) @ s' \<and> k' = k + length (c # w) \<and> lang (Plus P) k (c # w)"
    by simp
  then show ?case by blast
next
  case (Rep n P)
  then show ?case by (auto dest!: exactly_sound)
next
  case (Grp i r)
  then obtain g0 where "(k', s', g0) \<in> set (rmatch r (k, s, g))" by auto
  from Grp.IH[OF this] show ?case by simp
next
  case (Seq r1 r2)
  from Seq.prems obtain k1 s1 g1 where
    a: "(k1, s1, g1) \<in> set (rmatch r1 (k, s, g))" and b: "(k', s', g') \<in> set (rmatch r2 (k1, s1, g1))"
    by auto
  from Seq.IH(1)[OF a] obtain u where u: "s = u @ s1" "k1 = k + length u" "lang r1 k u" by blast
  from Seq.IH(2)[OF b] obtain v where v: "s1 = v @ s'" "k' = k1 + length v" "lang r2 k1 v" by blast
  from u v have "s = (u @ v) @ s' \<and> k' = k + length (u @ v) \<and> lang (Seq r1 r2) k (u @ v)"
    by auto
  then show ?case by blast
qed

subsection \<open>The earnings pattern on an earnings row\<close>

lemma space_not_number: "uni_isspace c \<Longrightarrow> \<not> cls_number c"
  using space_not_decimal[of c] by (auto simp: cls_number_def uni_isspace_def)

lemma seq_chain:
  assumes "first_match r1 (k, s, g) = Some (k1, s1, g1)"
    and "\<exists>k'. first_match r2 (k1, s1, g1) = Some (k', s', g')"
  shows "\<exists>k'. first_match (Seq r1 r2) (k, s, g) = Some (k', s', g')"
  using assms first_match_Seq by blast

lemma first_match_blanks:
  assumes "blank_run w" and "s \<noteq> []" and "\<not> uni_isspace (hd s)"
  shows "first_match (Plus cls_space) (k, w @ s, g) = Some (k + length w, s, g)"
proof -
  have a: "list_all cls_space w"
    using assms(1) by (simp add: blank_run_def cls_space_def list_all_iff)
  have b: "w \<noteq> []" using assms(1) by (simp add: blank_run_def)
  have c: "s = [] \<or> \<not> cls_space (hd s)" using assms(3) by (simp add: cls_space_def)
  show ?thesis by (rule first_match_Plus[OF b a c])
qed

lemma first_match_number:
  assumes "number_token t" and "s = [] \<or> \<not> cls_number (hd s)"
  shows "first_match (Grp i (Plus cls_number)) (k, t @ s, g) = Some (k + length t, s, g(i \<mapsto> t))"
proof -
  have "first_match (Plus cls_number) (k, t @ s, g) = Some (k + length t, s, g)"
    using assms by (intro first_match_Plus) (simp_all add: number_token_def)
  then show ?thesis by (rule first_match_Grp)
qed

lemma first_match_Grp_ex:
  assumes "\<exists>k'. first_match r (k, w @ s, g) = Some (k', s, g')"
  shows "\<exists>k'. first_match (Grp i r) (k, w @ s, g) = Some (k', s, g'(i \<mapsto> w))"
proof -
  from assms obtain k' where f: "first_match r (k, w @ s, g) = Some (k', s, g')" by blast
  then have "(k', s, g') \<in> set (rmatch r (k, w @ s, g))"
    by (auto simp: first_match_def split: list.splits)
  from rmatch_sound[OF this] have "k' = k + length w" by auto
  with f have "first_match (Grp i r) (k, w @ s, g) = Some (k + length w, s, g'(i \<mapsto> w))"
    by (intro first_match_Grp) simp
  then show ?thesis by blast
qed

lemma first_match_date:
  assumes "date_token d"
  shows "\<exists>k'. first_match (Grp 2 (Seq (Rep 2 cls_digit) (Seq (Lit (ascii ''/'')) (Seq (Rep 2 cls_digit)
              (Seq (Lit (ascii ''/'')) (Rep 2 cls_digit)))))) (k, d @ s, g) =
         Some (k', s, g(2 \<mapsto> d))"
proof -
  from assms obtain d1 d2 d3 where d: "d = d1 @ [47] @ d2 @ [47] @ d3"
    and l: "length d1 = 2" "length d2 = 2" "length d3 = 2"
    and a: "list_all cls_digit d1" "list_all cls_digit d2" "list_all cls_digit d3"
    by (auto simp: date_token_def cls_digit_def list_all_iff)
  have sl: "ascii ''/'' = [47]" by (simp add: ascii_def)
  have e5: "\<And>k. \<exists>k'. first_match (Rep 2 cls_digit) (k, d3 @ s, g) = Some (k', s, g)"
    using first_match_Rep[OF l(3) a(3)] by blast
  have e4: "\<And>k. \<exists>k'. first_match (Seq (Lit [47]) (Rep 2 cls_digit)) (k, [47] @ d3 @ s, g) =
      Some (k', s, g)"
    by (rule seq_chain[OF first_match_Lit e5])
  have e3: "\<And>k. \<exists>k'. first_match (Seq (Rep 2 cls_digit) (Seq (Lit [47]) (Rep 2 cls_digit)))
      (k, d2 @ [47] @ d3 @ s, g) = Some (k', s, g)"
    by (rule seq_chain[OF first_match_Rep[OF l(2) a(2)] e4])
  have e2: "\<And>k. \<exists>k'. first_match (Seq (Lit [47]) (Seq (Rep 2 cls_digit) (Seq (Lit [47])
      (Rep 2 cls_digit)))) (k, [47] @ d2 @ [47] @ d3 @ s, g) = Some (k', s, g)"
    by (rule seq_chain[OF first_match_Lit e3])
  have e1: "\<exists>k'. first_match (Seq (Rep 2 cls_digit) (Seq (Lit [47]) (Seq (Rep 2 cls_digit)
      (Seq (Lit [47]) (Rep 2 cls_digit))))) (k, d1 @ [47] @ d2 @ [47] @ d3 @ s, g) = Some (k', s, g)"
    by (rule seq_chain[OF first_match_Rep[OF l(1) a(1)] e2])
  have "d @ s = d1 @ [47] @ d2 @ [47] @ d3 @ s" using d by simp
  with e1 have "\<exists>k'. first_match (Seq (Rep 2 cls_digit) (Seq (Lit [47]) (Seq (Rep 2 cls_digit)
      (Seq (Lit [47]) (Rep 2 cls_digit))))) (k, d @ s, g) = Some (k', s, g)"
    by (simp only:)
  then show ?thesis unfolding sl by (rule first_match_Grp_ex)
qed

lemma date_token_hd: "date_token d \<Longrightarrow> d \<noteq> [] \<and> uni_isdecimal (hd d)"
  by (auto simp: date_token_def length_Suc_conv numeral_2_eq_2)

lemma number_token_hd: "number_token t \<Longrightarrow> t \<noteq> [] \<and> cls_number (hd t)"
  by (cases t) (auto simp: number_token_def)

lemma blank_run_hd: "blank_run w \<Longrightarrow> w \<noteq> [] \<and> uni_isspace (hd w)"
  by (cases w) (auto simp: blank_run_def)

lemma first_match_row:
  assumes "earning_row s d t1 t2 t3 rest" and "rest = [] \<or> \<not> cls_number (hd rest)"
  shows "\<exists>k'. first_match earning_re (k, s, g) =
     Some (k', rest, g(1 \<mapsto> ascii ''Hourly-'', 2 \<mapsto> d, 3 \<mapsto> t1, 4 \<mapsto> t2, 5 \<mapsto> t3))"
proof -
  from assms(1) obtain w1 w2 w3 w4 where
    s: "s = ascii ''Hourly-'' @ w1 @ d @ w2 @ t1 @ w3 @ t2 @ w4 @ t3 @ rest"
    and w: "blank_run w1" "blank_run w2" "blank_run w3" "blank_run w4"
    and d: "date_token d" and t: "number_token t1" "number_token t2" "number_token t3"
    by (auto simp: earning_row_def)
  have e9: "\<And>k g. \<exists>k'. first_match (Grp 5 (Plus cls_number)) (k, t3 @ rest, g) =
      Some (k', rest, g(5 \<mapsto> t3))"
    using first_match_number[OF t(3) assms(2)] by blast
  have e8: "\<And>k g. \<exists>k'. first_match (Seq (Plus cls_space) (Grp 5 (Plus cls_number)))
      (k, w4 @ t3 @ rest, g) = Some (k', rest, g(5 \<mapsto> t3))"
  proof -
    fix k g
    have "first_match (Plus cls_space) (k, w4 @ t3 @ rest, g) = Some (k + length w4, t3 @ rest, g)"
      using number_token_hd[OF t(3)] space_not_number
      by (intro first_match_blanks[OF w(4)]) auto
    from seq_chain[OF this e9]
    show "\<exists>k'. first_match (Seq (Plus cls_space) (Grp 5 (Plus cls_number)))
      (k, w4 @ t3 @ rest, g) = Some (k', rest, g(5 \<mapsto> t3))" .
  qed
  have e7: "\<And>k g. \<exists>k'. first_match (Seq (Grp 4 (Plus cls_number))
      (Seq (Plus cls_space) (Grp 5 (Plus cls_number))))
      (k, t2 @ w4 @ t3 @ rest, g) = Some (k', rest, g(4 \<mapsto> t2, 5 \<mapsto> t3))"
  proof -
    fix k g
    have "first_match (Grp 4 (Plus cls_number)) (k, t2 @ w4 @ t3 @ rest, g) =
        Some (k + length t2, w4 @ t3 @ rest, g(4 \<mapsto> t2))"
      using blank_run_hd[OF w(4)] space_not_number
      by (intro first_match_number[OF t(2)]) auto
    from seq_chain[OF this e8]
    show "\<exists>k'. first_match (Seq (Grp 4 (Plus cls_number))
      (Seq (Plus cls_space) (Grp 5 (Plus cls_number))))
      (k, t2 @ w4 @ t3 @ rest, g) = Some (k', rest, g(4 \<mapsto> t2, 5 \<mapsto> t3))" .
  qed
  have e6: "\<And>k g. \<exists>k'. first_match (Seq (Plus cls_space) (Seq (Grp 4 (Plus cls_number))
      (Seq (Plus cls_space) (Grp 5 (Plus cls_number)))))
      (k, w3 @ t2 @ w4 @ t3 @ rest, g) = Some (k', rest, g(4 \<mapsto> t2, 5 \<mapsto> t3))"
  proof -
    fix k g
    have "first_match (Plus cls_space) (k, w3 @ t2 @ w4 @ t3 @ rest, g) =
        Some (k + length w3, t2 @ w4 @ t3 @ rest, g)"
      using number_token_hd[OF t(2)] space_not_number
      by (intro first_match_blanks[OF w(3)]) auto
    from seq_chain[OF this e7]
    show "\<exists>k'. first_match (Seq (Plus cls_space) (Seq (Grp 4 (Plus cls_number))
      (Seq (Plus cls_space) (Grp 5 (Plus cls_number)))))
      (k, w3 @ t2 @ w4 @ t3 @ rest, g) = Some (k', rest, g(4 \<mapsto> t2, 5 \<mapsto> t3))" .
  qed
  have e5: "\<And>k g. \<exists>k'. first_match (Seq (Grp 3 (Plus cls_number)) (Seq (Plus cls_space)
      (Seq (Grp 4 (Plus cls_number)) (Seq (Plus cls_space) (Grp 5 (Plus cls_number))))))
      (k, t1 @ w3 @ t2 @ w4 @ t3 @ rest, g) = Some (k', rest, g(3 \<mapsto> t1, 4 \<mapsto> t2, 5 \<mapsto> t3))"
  proof -
    fix k g
    have "first_match (Grp 3 (Plus cls_number)) (k, t1 @ w3 @ t2 @ w4 @ t3 @ rest, g) =
        Some (k + length t1, w3 @ t2 @ w4 @ t3 @ rest, g(3 \<mapsto> t1))"
      using blank_run_hd[OF w(3)] space_not_number
      by (intro first_match_number[OF t(1)]) auto
    from seq_chain[OF this e6]
    show "\<exists>k'. first_match (Seq (Grp 3 (Plus cls_number)) (Seq (Plus cls_space)
      (Seq (Grp 4 (Plus cls_number)) (Seq (Plus cls_space) (Grp 5 (Plus cls_number))))))
      (k, t1 @ w3 @ t2 @ w4 @ t3 @ rest, g) = Some (k', rest, g(3 \<mapsto> t1, 4 \<mapsto> t2, 5 \<mapsto> t3))" .
  qed
  have e4: "\<And>k g. \<exists>k'. first_match (Seq (Plus cls_space) (Seq (Grp 3 (Plus cls_number))
      (Seq (Plus cls_space) (Seq (Grp 4 (Plus cls_number)) (Seq (Plus cls_space)
        (Grp 5 (Plus cls_number)))))))
      (k, w2 @ t1 @ w3 @ t2 @ w4 @ t3 @ rest, g) = Some (k', rest, g(3 \<mapsto> t1, 4 \<mapsto> t2, 5 \<mapsto> t3))"
  proof -
    fix k g
    have "first_match (Plus cls_space) (k, w2 @ t1 @ w3 @ t2 @ w4 @ t3 @ rest, g) =
        Some (k + length w2, t1 @ w3 @ t2 @ w4 @ t3 @ rest, g)"
      using number_token_hd[OF t(1)] space_not_number
      by (intro first_match_blanks[OF w(2)]) auto
    from seq_chain[OF this e5]
    show "\<exists>k'. first_match (Seq (Plus cls_space) (Seq (Grp 3 (Plus cls_number))
      (Seq (Plus cls_space) (Seq (Grp 4 (Plus cls_number)) (Seq (Plus cls_space)
        (Grp 5 (Plus cls_number)))))))
      (k, w2 @ t1 @ w3 @ t2 @ w4 @ t3 @ rest, g) = Some (k', rest, g(3 \<mapsto> t1, 4 \<mapsto> t2, 5 \<mapsto> t3))" .
  qed
  have e3: "\<And>k g. \<exists>k'. first_match
      (Seq (Grp 2 (Seq (Rep 2 cls_digit) (Seq (Lit (ascii ''/'')) (Seq (Rep 2 cls_digit)
              (Seq (Lit (ascii ''/'')) (Rep 2 cls_digit))))))
         (Seq (Plus cls_space) (Seq (Grp 3 (Plus cls_number)) (Seq (Plus cls_space)
           (Seq (Grp 4 (Plus cls_number)) (Seq (Plus cls_space)
             (Grp 5 (Plus cls_number))))))))
      (k, d @ w2 @ t1 @ w3 @ t2 @ w4 @ t3 @ rest, g) =
      Some (k', rest, g(2 \<mapsto> d, 3 \<mapsto> t1, 4 \<mapsto> t2, 5 \<mapsto> t3))"
  proof -
    fix k g
    from first_match_date[OF d] obtain k1 where
      "first_match (Grp 2 (Seq (Rep 2 cls_digit) (Seq (Lit (ascii ''/'')) (Seq (Rep 2 cls_digit)
              (Seq (Lit (ascii ''/'')) (Rep 2 cls_digit))))))
         (k, d @ w2 @ t1 @ w3 @ t2 @ w4 @ t3 @ rest, g) =
       Some (k1, w2 @ t1 @ w3 @ t2 @ w4 @ t3 @ rest, g(2 \<mapsto> d))"
      by blast
    from seq_chain[OF this e4]
    show "\<exists>k'. first_match
      (Seq (Grp 2 (Seq (Rep 2 cls_digit) (Seq (Lit (ascii ''/'')) (Seq (Rep 2 cls_digit)
              (Seq (Lit (ascii ''/'')) (Rep 2 cls_digit))))))
         (Seq (Plus cls_space) (Seq (Grp 3 (Plus cls_number)) (Seq (Plus cls_space)
           (Seq (Grp 4 (Plus cls_number)) (Seq (Plus cls_space)
             (Grp 5 (Plus cls_number))))))))
      (k, d @ w2 @ t1 @ w3 @ t2 @ w4 @ t3 @ rest, g) =
      Some (k', rest, g(2 \<mapsto> d, 3 \<mapsto> t1, 4 \<mapsto> t2, 5 \<mapsto> t3))" .
  qed
  have e2: "\<And>k g. \<exists>k'. first_match
      (Seq (Plus cls_space)
       (Seq (Grp 2 (Seq (Rep 2 cls_digit) (Seq (Lit (ascii ''/'')) (Seq (Rep 2 cls_digit)
              (Seq (Lit (ascii ''/'')) (Rep 2 cls_digit))))))
         (Seq (Plus cls_space) (Seq (Grp 3 (Plus cls_number)) (Seq (Plus cls_space)
           (Seq (Grp 4 (Plus cls_number)) (Seq (Plus cls_space)
             (Grp 5 (Plus cls_number)))))))))
      (k, w1 @ d @ w2 @ t1 @ w3 @ t2 @ w4 @ t3 @ rest, g) =
      Some (k', rest, g(2 \<mapsto> d, 3 \<mapsto> t1, 4 \<mapsto> t2, 5 \<mapsto> t3))"
  proof -
    fix k g
    have "first_match (Plus cls_space) (k, w1 @ d @ w2 @ t1 @ w3 @ t2 @ w4 @ t3 @ rest, g) =
        Some (k + length w1, d @ w2 @ t1 @ w3 @ t2 @ w4 @ t3 @ rest, g)"
      using date_token_hd[OF d] space_not_decimal
      by (intro first_match_blanks[OF w(1)]) auto
    from seq_chain[OF this e3]
    show "\<exists>k'. first_match
      (Seq (Plus cls_space)
       (Seq (Grp 2 (Seq (Rep 2 cls_digit) (Seq (Lit (ascii ''/'')) (Seq (Rep 2 cls_digit)
              (Seq (Lit (ascii ''/'')) (Rep 2 cls_digit))))))
         (Seq (Plus cls_space) (Seq (Grp 3 (Plus cls_number)) (Seq (Plus cls_space)
           (Seq (Grp 4 (Plus cls_number)) (Seq (Plus cls_space)
             (Grp 5 (Plus cls_number)))))))))
      (k, w1 @ d @ w2 @ t1 @ w3 @ t2 @ w4 @ t3 @ rest, g) =
      Some (k', rest, g(2 \<mapsto> d, 3 \<mapsto> t1, 4 \<mapsto> t2, 5 \<mapsto> t3))" .
  qed
  have "first_match (Grp 1 (Lit (ascii ''Hourly-'')))
      (k, ascii ''Hourly-'' @ w1 @ d @ w2 @ t1 @ w3 @ t2 @ w4 @ t3 @ rest, g) =
      Some (k + length (ascii ''Hourly-''), w1 @ d @ w2 @ t1 @ w3 @ t2 @ w4 @ t3 @ rest,
            g(1 \<mapsto> ascii ''Hourly-''))"
    by (rule first_match_Grp[OF first_match_Lit])
  from seq_chain[OF this e2] show ?thesis
    unfolding s earning_re_def .
qed

lemma lang_date:
  assumes "lang (Seq (Rep 2 cls_digit) (Seq (Lit (ascii ''/'')) (Seq (Rep 2 cls_digit)
              (Seq (Lit (ascii ''/'')) (Rep 2 cls_digit))))) k w"
  shows "date_token w"
proof -
  have sl: "ascii ''/'' = [47]" by (simp add: ascii_def)
  from assms obtain d1 d2 d3 where "w = d1 @ [47] @ d2 @ [47] @ d3"
    "length d1 = 2" "length d2 = 2" "length d3 = 2"
    "list_all cls_digit d1" "list_all cls_digit d2" "list_all cls_digit d3"
    unfolding sl by auto
  then show ?thesis
    unfolding date_token_def by (auto simp: cls_digit_def list_all_iff)
qed

lemma lang_SeqE:
  assumes "lang (Seq r1 r2) k w"
  obtains u v where "w = u @ v" "lang r1 k u" "lang r2 (k + length u) v"
  using assms by auto

lemma lang_earning_re:
  assumes "lang earning_re k w"
  shows "\<exists>d t1 t2 t3. earning_row (w @ rest) d t1 t2 t3 rest"
proof -
  from assms[unfolded earning_re_def] obtain u1 v1 where
    1: "w = u1 @ v1" "lang (Grp 1 (Lit (ascii ''Hourly-''))) k u1"
    and r1: "lang (Seq (Plus cls_space)
       (Seq (Grp 2 (Seq (Rep 2 cls_digit) (Seq (Lit (ascii ''/'')) (Seq (Rep 2 cls_digit)
              (Seq (Lit (ascii ''/'')) (Rep 2 cls_digit))))))
         (Seq (Plus cls_space) (Seq (Grp 3 (Plus cls_number)) (Seq (Plus cls_space)
           (Seq (Grp 4 (Plus cls_number)) (Seq (Plus cls_space)
             (Grp 5 (Plus cls_number))))))))) (k + length u1) v1"
    by (rule lang_SeqE)
  from r1 obtain w1 v2 where
    2: "v1 = w1 @ v2" "lang (Plus cls_space) (k + length u1) w1"
    and r2: "lang (Seq (Grp 2 (Seq (Rep 2 cls_digit) (Seq (Lit (ascii ''/'')) (Seq (Rep 2 cls_digit)
              (Seq (Lit (ascii ''/'')) (Rep 2 cls_digit))))))
         (Seq (Plus cls_space) (Seq (Grp 3 (Plus cls_number)) (Seq (Plus cls_space)
           (Seq (Grp 4 (Plus cls_number)) (Seq (Plus cls_space)
             (Grp 5 (Plus cls_number)))))))) (k + length u1 + length w1) v2"
    by (rule lang_SeqE)
  from r2 obtain d v3 where
    3: "v2 = d @ v3" "lang (Grp 2 (Seq (Rep 2 cls_digit) (Seq (Lit (ascii ''/'')) (Seq (Rep 2 cls_digit)
              (Seq (Lit (ascii ''/'')) (Rep 2 cls_digit)))))) (k + length u1 + length w1) d"
    and r3: "lang (Seq (Plus cls_space) (Seq (Grp 3 (Plus cls_number)) (Seq (Plus cls_space)
           (Seq (Grp 4 (Plus cls_number)) (Seq (Plus cls_space)
             (Grp 5 (Plus cls_number))))))) (k + length u1 + length w1 + length d) v3"
    by (rule lang_SeqE)
  from r3 obtain w2 v4 where
    4: "v3 = w2 @ v4" "lang (Plus cls_space) (k + length u1 + length w1 + length d) w2"
    and r4: "lang (Seq (Grp 3 (Plus cls_number)) (Seq (Plus cls_space)
           (Seq (Grp 4 (Plus cls_number)) (Seq (Plus cls_space)
             (Grp 5 (Plus cls_number))))))
         (k + length u1 + length w1 + length d + length w2) v4"
    by (rule lang_SeqE)
  from r4 obtain t1 v5 where
    5: "v4 = t1 @ v5" "lang (Grp 3 (Plus cls_number))
         (k + length u1 + length w1 + length d + length w2) t1"
    and r5: "lang (Seq (Plus cls_space)
           (Seq (Grp 4 (Plus cls_number)) (Seq (Plus cls_space)
             (Grp 5 (Plus cls_number)))))
         (k + length u1 + length w1 + length d + length w2 + length t1) v5"
    by (rule lang_SeqE)
  from r5 obtain w3 v6 where
    6: "v5 = w3 @ v6" "lang (Plus cls_space)
         (k + length u1 + length w1 + length d + length w2 + length t1) w3"
    and r6: "lang (Seq (Grp 4 (Plus cls_number)) (Seq (Plus cls_space)
             (Grp 5 (Plus cls_number))))
         (k + length u1 + length w1 + length d + length w2 + length t1 + length w3) v6"
    by (rule lang_SeqE)
  from r6 obtain t2 v7 where
    7: "v6 = t2 @ v7" "lang (Grp 4 (Plus cls_number))
         (k + length u1 + length w1 + length d + length w2 + length t1 + length w3) t2"
    and r7: "lang (Seq (Plus cls_space) (Grp 5 (Plus cls_number)))
         (k + length u1 + length w1 + length d + length w2 + length t1 + length w3 + length t2) v7"
    by (rule lang_SeqE)
  from r7 obtain w4 t3 where
    8: "v7 = w4 @ t3" "lang (Plus cls_space)
         (k + length u1 + length w1 + length d + length w2 + length t1 + length w3 + length t2) w4"
    and r8: "lang (Grp 5 (Plus cls_number))
         (k + length u1 + length w1 + length d + length w2 + length t1 + length w3 + length t2
            + length w4) t3"
    by (rule lang_SeqE)
  have "blank_run w1" "blank_run w2" "blank_run w3" "blank_run w4"
    using 2(2) 4(2) 6(2) 8(2) by (simp_all add: blank_run_def cls_space_def list_all_iff)
  moreover have "number_token t1" "number_token t2" "number_token t3"
    using 5(2) 7(2) r8 by (simp_all add: number_token_def)
  moreover have "date_token d" using 3(2) lang_date by simp
  moreover have "w @ rest = ascii ''Hourly-'' @ w1 @ d @ w2 @ t1 @ w3 @ t2 @ w4 @ t3 @ rest"
    using 1 2(1) 3(1) 4(1) 5(1) 6(1) 7(1) 8(1) by simp
  ultimately have "earning_row (w @ rest) d t1 t2 t3 rest"
    unfolding earning_row_def by blast
  then show ?thesis by blast
qed

lemma rmatch_begins_row: "rmatch earning_re (k, s, g) \<noteq> [] \<Longrightarrow> begins_row s"
proof -
  assume "rmatch earning_re (k, s, g) \<noteq> []"
  then obtain k' s' g' where "(k', s', g') \<in> set (rmatch earning_re (k, s, g))"
    by (cases "rmatch earning_re (k, s, g)") auto
  from rmatch_sound[OF this] obtain w where "s = w @ s'" "lang earning_re k w" by blast
  with lang_earning_re[of k w s'] show ?thesis unfolding begins_row_def by blast
qed

lemma search_from_skip:
  assumes "\<forall>j < length pre. rmatch r (k + j, drop j (pre @ s), Map.empty) = []"
    and "first_match r (k + length pre, s, Map.empty) = Some (k', s', g)"
  shows "search_from r k (pre @ s) = Some g"
  using assms
proof (induction pre arbitrary: k)
  case Nil
  then show ?case
    by (cases s) (auto simp: first_match_def split: list.splits)
next
  case (Cons c pre)
  from Cons.prems(1) have "rmatch r (k + 0, drop 0 ((c # pre) @ s), Map.empty) = []"
    by blast
  then have a: "search_from r k ((c # pre) @ s) = search_from r (Suc k) (pre @ s)" by simp
  have "\<forall>j < length pre. rmatch r (Suc k + j, drop j (pre @ s), Map.empty) = []"
  proof (intro allI impI)
    fix j assume "j < length pre"
    then have "Suc j < length (c # pre)" by simp
    with Cons.prems(1) have "rmatch r (k + Suc j, drop (Suc j) ((c # pre) @ s), Map.empty) = []"
      by blast
    then show "rmatch r (Suc k + j, drop j (pre @ s), Map.empty) = []" by simp
  qed
  moreover from Cons.prems(2) have "first_match r (Suc k + length pre, s, Map.empty) = Some (k', s', g)"
    by simp
  ultimately have "search_from r (Suc k) (pre @ s) = Some g" by (rule Cons.IH)
  with a show ?case by simp
qed

lemma hourly_type: "py_strip (py_strip_chars (ascii ''-'') (ascii ''Hourly-'')) = ascii ''Hourly''"
  by (simp add: str_eval)

lemma entry_of_row:
  assumes "py_strip raw = pre @ s" and "earning_row s d t1 t2 t3 rest"
    and "rest = [] \<or> \<not> cls_number (hd rest)"
    and "\<forall>j < length pre. \<not> begins_row (drop j (pre @ s))"
  shows "entry_of raw = Some \<lparr>type = ascii ''Hourly'', date = d, rate = clean_value (Some t1),
     hours = clean_value (Some t2), amount = clean_value (Some t3)\<rparr>"
proof -
  from first_match_row[OF assms(2,3), of "0 + length pre" Map.empty] obtain k' where
    f: "first_match earning_re (0 + length pre, s, Map.empty) =
      Some (k', rest, [1 \<mapsto> ascii ''Hourly-'', 2 \<mapsto> d, 3 \<mapsto> t1, 4 \<mapsto> t2, 5 \<mapsto> t3])"
    by blast
  have "\<forall>j < length pre. rmatch earning_re (0 + j, drop j (pre @ s), Map.empty) = []"
    using assms(4) rmatch_begins_row by blast
  from search_from_skip[OF this f]
  have "re_search earning_re (py_strip raw) =
      Some [1 \<mapsto> ascii ''Hourly-'', 2 \<mapsto> d, 3 \<mapsto> t1, 4 \<mapsto> t2, 5 \<mapsto> t3]"
    by (simp add: re_search_def assms(1))
  then show ?thesis
    by (simp add: entry_of_def hourly_type)
qed

text \<open>
  C5, as the code has it. The only type token of the earnings pattern is the literal
  \<open>Hourly-\<close>. When the stripped line holds an earnings row (\<open>Hourly-\<close>, blanks, a
  date of three pairs of digits, and three number tokens of digits and points after
  blanks each), the leftmost one with its third token taken as long as it goes, one
  entry is appended to the current record: its type is \<open>Hourly\<close>, the hyphen
  stripped, its date is the date token, and its rate, hours and amount are what
  \<open>clean_currency\<close> gives for the three tokens, in that order. The current record is
  the one the line itself opens if the line is a header line, else the one that was
  current.
\<close>

theorem hourly_row_is_appended:
  assumes "py_strip raw = pre @ s" and "earning_row s d t1 t2 t3 rest"
    and "rest = [] \<or> \<not> cls_number (hd rest)"
    and "\<forall>j < length pre. \<not> begins_row (drop j (pre @ s))"
  shows "\<exists>e. type e = ascii ''Hourly'' \<and> date e = d \<and>
      clean_currency (Some t1) = Inr (rate e) \<and> clean_currency (Some t2) = Inr (hours e) \<and>
      clean_currency (Some t3) = Inr (amount e) \<and>
      (header_of raw = None \<longrightarrow> i < length emps \<longrightarrow>
         loop_body raw (emps, Some i) =
           Inr (emps[i := (emps ! i)\<lparr>earnings := earnings (emps ! i) @ [e]\<rparr>], Some i)) \<and>
      (header_of raw = Some h \<longrightarrow>
         loop_body raw (emps, cur) =
           Inr (emps @ [(new_employee h)\<lparr>earnings := [e]\<rparr>], Some (length emps)))"
proof -
  let ?e = "\<lparr>type = ascii ''Hourly'', date = d, rate = clean_value (Some t1),
     hours = clean_value (Some t2), amount = clean_value (Some t3)\<rparr>"
  have e: "entry_of raw = Some ?e" using assms by (rule entry_of_row)
  have a: "header_of raw = None \<longrightarrow> i < length emps \<longrightarrow>
         loop_body raw (emps, Some i) =
           Inr (emps[i := (emps ! i)\<lparr>earnings := earnings (emps ! i) @ [?e]\<rparr>], Some i)"
    by (simp add: loop_body_step step_def apply_line_entry[OF e] update_at_def add_earning_def)
  have b: "header_of raw = Some h \<longrightarrow>
         loop_body raw (emps, cur) =
           Inr (emps @ [(new_employee h)\<lparr>earnings := [?e]\<rparr>], Some (length emps))"
    by (simp add: loop_body_step step_def apply_line_entry[OF e] update_at_last add_earning_def
        new_employee_def)
  from a b show ?thesis
    by (intro exI[of _ ?e]) (simp add: clean_currency_Inr)
qed

lemma begins_row_hd: "begins_row x \<Longrightarrow> x \<noteq> [] \<and> hd x = 72"
  by (auto simp: begins_row_def earning_row_def ascii_def)

lemma padded_row:
  "earning_row (line_hourly @ ascii '' net'') (ascii ''01/02/25'') (ascii ''10.00'') (ascii ''5.00'')
     (ascii ''50.00'') (ascii '' net'')"
proof -
  have "date_token (ascii ''01/02/25'')"
    unfolding date_token_def
    by (intro exI[of _ "ascii ''01''"] exI[of _ "ascii ''02''"] exI[of _ "ascii ''25''"])
      (simp add: char_eval)
  moreover have "blank_run (ascii '' '')" by (simp add: blank_run_def char_eval)
  moreover have "number_token (ascii ''10.00'')" "number_token (ascii ''5.00'')"
    "number_token (ascii ''50.00'')"
    by (simp_all add: number_token_def char_eval)
  moreover have "line_hourly @ ascii '' net'' =
      ascii ''Hourly-'' @ ascii '' '' @ ascii ''01/02/25'' @ ascii '' '' @ ascii ''10.00'' @
      ascii '' '' @ ascii ''5.00'' @ ascii '' '' @ ascii ''50.00'' @ ascii '' net''"
    by (simp add: line_hourly_def ascii_def)
  ultimately show ?thesis unfolding earning_row_def by blast
qed

lemma header_of_padded: "header_of line_padded = None"
  unfolding header_of_def re_match_def header_re_def line_padded_def by (simp add: str_eval)

theorem hourly_row_is_appended_witness:
  "loop_body line_padded ([smith], Some 0) = Inr ([smith\<lparr>earnings := [hourly_entry]\<rparr>], Some 0)"
proof -
  have s: "py_strip line_padded = ascii ''Pay '' @ (line_hourly @ ascii '' net'')"
    by (simp add: line_padded_def line_hourly_def str_eval)
  have r: "ascii '' net'' = [] \<or> \<not> cls_number (hd (ascii '' net''))"
    by (simp add: char_eval)
  have l: "\<forall>j < length (ascii ''Pay ''). \<not> begins_row (drop j (ascii ''Pay '' @ (line_hourly @ ascii '' net'')))"
  proof (intro allI impI)
    fix j assume "j < length (ascii ''Pay '')"
    then have "j = 0 \<or> j = 1 \<or> j = 2 \<or> j = 3" by (auto simp: ascii_def)
    then have "hd (drop j (ascii ''Pay '' @ (line_hourly @ ascii '' net''))) \<noteq> 72"
      by (auto simp: ascii_def line_hourly_def)
    then show "\<not> begins_row (drop j (ascii ''Pay '' @ (line_hourly @ ascii '' net'')))"
      using begins_row_hd by blast
  qed
  from hourly_row_is_appended[OF s padded_row r l, of 0 "[smith]"] obtain e where
    e: "type e = ascii ''Hourly''" "date e = ascii ''01/02/25''"
      "clean_currency (Some (ascii ''10.00'')) = Inr (rate e)"
      "clean_currency (Some (ascii ''5.00'')) = Inr (hours e)"
      "clean_currency (Some (ascii ''50.00'')) = Inr (amount e)"
    and b: "header_of line_padded = None \<longrightarrow> 0 < length [smith] \<longrightarrow>
         loop_body line_padded ([smith], Some 0) =
           Inr ([smith][0 := ([smith] ! 0)\<lparr>earnings := earnings ([smith] ! 0) @ [e]\<rparr>], Some 0)"
    by blast
  from e have "e = hourly_entry"
    by (cases e) (simp add: hourly_entry_def clean_currency_Inr clean_value_10 clean_value_5
        clean_value_50)
  with b header_of_padded show ?thesis by (simp add: smith_def)
qed

text \<open>
  The claim as it is written fails for a type token other than \<open>Hourly-\<close>: the line
  has a type token ending in a hyphen, a date and three numbers, a record is current,
  and nothing is appended.
\<close>

lemma totals_of_overtime: "totals_of line_overtime = None"
  unfolding totals_of_def re_search_def total_re_def line_overtime_def by (simp add: str_eval)

theorem other_type_token_counterexample:
  "line_overtime = ascii ''Overtime- 01/02/25 10.00 5.00 50.00'' \<and>
   loop_body line_overtime ([smith], Some 0) = Inr ([smith], Some 0)"
  by (simp add: loop_body_step step_no_pattern header_of_overtime entry_of_overtime
      totals_of_overtime) (simp add: line_overtime_def)

end
